theory Spec2Isabelle
  imports Main
begin

section \<open>Proof-of-Innocence list provider: shallow embedding\<close>

text \<open>
  The development follows \<^verbatim>\<open>packages/node/src/api/poi-node-request.ts\<close>, which holds
  two modules: the class \<^verbatim>\<open>POINodeRequest\<close> (lines 1-333) and the abstract class
  \<^verbatim>\<open>ListProvider\<close> with its two pollers (lines 334-578).

  Conventions.
  \<^item> A JavaScript \<^verbatim>\<open>number\<close> that holds a block number, a timestamp or a delay in
    milliseconds is an \<open>int\<close>; an optional field is an \<open>option\<close>, and \<^verbatim>\<open>a ?? b\<close> is a
    case distinction on it.
  \<^item> A rejected promise or a thrown \<^verbatim>\<open>Error\<close> is the left injection of a sum type.
  \<^item> The collaborators whose code is not part of the sources (chain observer, RPC
    provider, policy gate, signer, data stores, HTTP client) answer through a record of
    responses, the environment. Every invocation of a collaborator is appended to a trace
    held in the state, so that "is called with" and "is not called" are statements about
    the trace.
  \<^item> \<^verbatim>\<open>Promise.all(xs.map(f))\<close> starts the closures in list order; the model runs them to
    completion in that order. The debug logger \<^verbatim>\<open>dbg\<close> has no effect on the state and
    is left out.
\<close>

subsection \<open>Errors, networks, configuration\<close>

type_synonym NetworkName = string

type_synonym TXIDVersion = string

datatype error =
    Error string
  | AxiosError string "string option"

text \<open>\<^verbatim>\<open>ListProviderConfig\<close>, lines 358-363.\<close>

record ListProviderConfig =
  name :: string
  description :: string
  queueShieldsOverrideDelayMsec :: "int option"
  validateShieldsOverrideDelayMsec :: "int option"

text \<open>Lines 365-369.\<close>

definition DEFAULT_QUEUE_SHIELDS_DELAY_MSEC :: int where
  "DEFAULT_QUEUE_SHIELDS_DELAY_MSEC = 20 * 60 * 1000"

definition DEFAULT_VALIDATE_SHIELDS_DELAY_MSEC :: int where
  "DEFAULT_VALIDATE_SHIELDS_DELAY_MSEC = 30 * 1000"

text \<open>
  The argument of \<^verbatim>\<open>delay\<close> in \<^verbatim>\<open>runQueueShieldsPoller\<close> (lines 419-422) and in
  \<^verbatim>\<open>runValidateQueuedShieldsPoller\<close> (lines 435-438). Both read the field
  \<^verbatim>\<open>queueShieldsOverrideDelayMsec\<close>.
\<close>

definition queueShieldsPollerDelay :: "ListProviderConfig \<Rightarrow> int" where
  "queueShieldsPollerDelay config =
     (case queueShieldsOverrideDelayMsec config of
        Some d \<Rightarrow> d
      | None \<Rightarrow> DEFAULT_QUEUE_SHIELDS_DELAY_MSEC)"

definition validateQueuedShieldsPollerDelay :: "ListProviderConfig \<Rightarrow> int" where
  "validateQueuedShieldsPollerDelay config =
     (case queueShieldsOverrideDelayMsec config of
        Some d \<Rightarrow> d
      | None \<Rightarrow> DEFAULT_VALIDATE_SHIELDS_DELAY_MSEC)"

subsection \<open>Lowercasing\<close>

text \<open>
  \<^verbatim>\<open>String.prototype.toLowerCase\<close> on the code units an address is made of: the
  letters \<open>A\<close> to \<open>Z\<close> (65 to 90) move to \<open>a\<close> to \<open>z\<close>, every other unit of the 7-bit
  range stays. Units above 127 are left as they are.
\<close>

definition isUpperCase :: "char \<Rightarrow> bool" where
  "isUpperCase c = (65 \<le> (of_char c :: nat) \<and> (of_char c :: nat) \<le> 90)"

definition toLowerCaseChar :: "char \<Rightarrow> char" where
  "toLowerCaseChar c = (if isUpperCase c then char_of ((of_char c :: nat) + 32) else c)"

definition toLowerCase :: "string \<Rightarrow> string" where
  "toLowerCase str = map toLowerCaseChar str"

subsection \<open>Data model\<close>

text \<open>\<^verbatim>\<open>ShieldStatus\<close> and the rows of the shield queue (\<^verbatim>\<open>ShieldQueueDBItem\<close>).\<close>

datatype ShieldStatus = Pending | Allowed | Blocked

record ShieldQueueDBItem =
  txid :: string
  commitmentHash :: string
  blindedCommitment :: string
  timestamp :: int
  blockNumber :: int
  status :: ShieldStatus
  lastValidatedTimestamp :: "int option"

text \<open>
  \<^verbatim>\<open>ShieldData\<close>, what the chain observer returns for one shield. The fields are those of
  the row, prefixed because a record field is a constant of the theory.
\<close>

record ShieldData =
  sd_txid :: string
  sd_hash :: string
  sd_blindedCommitment :: string
  sd_timestamp :: int
  sd_blockNumber :: int

text \<open>\<^verbatim>\<open>POIEventShield\<close> and \<^verbatim>\<open>SignedBlockedShield\<close> of \<^verbatim>\<open>models/poi-types.ts\<close>.\<close>

record POIEventShield =
  ev_blindedCommitment :: string
  ev_commitmentHash :: string

record SignedBlockedShield =
  sbs_commitmentHash :: string
  sbs_blindedCommitment :: string
  sbs_blockReason :: "string option"
  sbs_signature :: string

text \<open>The part of a transaction receipt the list provider reads.\<close>

record TransactionReceipt =
  receipt_from :: string
  receipt_blockNumber :: int

text \<open>The answer of the policy gate: \<^verbatim>\<open>{ shouldAllow: boolean; blockReason?: string }\<close>.\<close>

record PolicyVerdict =
  shouldAllow :: bool
  blockReason :: "string option"

subsection \<open>Collaborators, trace and state\<close>

text \<open>One constructor per collaborator operation the list provider invokes.\<close>

datatype Call =
    GetStatus NetworkName
  | SaveStatus NetworkName int
  | GetNewShieldsFromWallet NetworkName int
  | InsertPendingShield NetworkName ShieldData
  | GetPendingShields NetworkName int nat
  | GetTransactionReceipt NetworkName string
  | GetTimestampFromTransactionReceipt NetworkName TransactionReceipt
  | ShouldAllowShield NetworkName string string int
  | QueueUnsignedPOIShieldEvent NetworkName POIEventShield
  | AddBlockedShield NetworkName ShieldQueueDBItem "string option"
  | UpdateShieldStatus NetworkName ShieldQueueDBItem ShieldStatus

text \<open>
  The environment: configuration constants and the responses of the collaborators.
  \<open>datastoreFault\<close> says which data-store calls fail for a reason of the store itself
  (the transient I/O errors of the error taxonomy).
\<close>

record Env =
  NETWORK_NAMES :: "NetworkName list"
  deploymentBlock :: "NetworkName \<Rightarrow> int"
  HOURS_SHIELD_PENDING_PERIOD :: int
  dateNow :: int
  walletResponse :: "NetworkName \<Rightarrow> int \<Rightarrow> error + ShieldData list"
  txReceiptResponse :: "NetworkName \<Rightarrow> string \<Rightarrow> error + TransactionReceipt"
  timestampResponse :: "NetworkName \<Rightarrow> TransactionReceipt \<Rightarrow> error + int"
  policyResponse :: "NetworkName \<Rightarrow> string \<Rightarrow> string \<Rightarrow> int \<Rightarrow> error + PolicyVerdict"
  blockedShieldSignature :: "string \<Rightarrow> string \<Rightarrow> string option \<Rightarrow> string"
  datastoreFault :: "Call \<Rightarrow> error option"

text \<open>
  The state: the four stores the list provider writes, and the trace of collaborator
  invocations.
\<close>

record World =
  shieldQueueDB :: "NetworkName \<Rightarrow> ShieldQueueDBItem list"
  statusDB :: "NetworkName \<Rightarrow> int option"
  poiEventQueue :: "(NetworkName \<times> POIEventShield) list"
  blocklistDB :: "(NetworkName \<times> SignedBlockedShield) list"
  calls :: "Call list"

definition logCall :: "Call \<Rightarrow> World \<Rightarrow> World" where
  "logCall c s = s\<lparr>calls := calls s @ [c]\<rparr>"

subsection \<open>Data stores\<close>

text \<open>
  The data stores are not part of the sources. Each operation below is modelled from the
  spec's description of it (sections 3, 4.1, 4.2 and 4.4). Each appends itself to the
  trace, fails without touching the store when the environment says the data store is
  at fault (section 7, transient I/O), and otherwise does what the spec says.
\<close>

text \<open>
  Modelled from the spec: \<^verbatim>\<open>StatusDatabase.getStatus\<close>, the read of the Status Store,
  which holds one \<open>latestBlockScanned\<close> per network, or nothing yet.
\<close>

definition getStatus :: "Env \<Rightarrow> NetworkName \<Rightarrow> World \<Rightarrow> (error + int option) \<times> World" where
  "getStatus env networkName s =
     (let s1 = logCall (GetStatus networkName) s in
      case datastoreFault env (GetStatus networkName) of
        Some err \<Rightarrow> (Inl err, s1)
      | None \<Rightarrow> (Inr (statusDB s1 networkName), s1))"

text \<open>
  Modelled from the spec: \<^verbatim>\<open>StatusDatabase.saveStatus\<close>, which stores the value and
  rejects a value less than the current one.
\<close>

definition saveStatus :: "Env \<Rightarrow> NetworkName \<Rightarrow> int \<Rightarrow> World \<Rightarrow> (error + unit) \<times> World" where
  "saveStatus env networkName latestBlockScanned s =
     (let s1 = logCall (SaveStatus networkName latestBlockScanned) s in
      case datastoreFault env (SaveStatus networkName latestBlockScanned) of
        Some err \<Rightarrow> (Inl err, s1)
      | None \<Rightarrow>
          (case statusDB s1 networkName of
             Some current \<Rightarrow>
               if latestBlockScanned < current
               then (Inl (Error ''latestBlockScanned must not decrease''), s1)
               else (Inr (), s1\<lparr>statusDB := (statusDB s1)(networkName := Some latestBlockScanned)\<rparr>)
           | None \<Rightarrow>
               (Inr (), s1\<lparr>statusDB := (statusDB s1)(networkName := Some latestBlockScanned)\<rparr>)))"

text \<open>
  Modelled from the spec: the rows of the Shield Queue Store are keyed by \<open>(txid, hash)\<close>,
  and the store maintains a unique index on that key.
\<close>

definition hasKey :: "string \<Rightarrow> string \<Rightarrow> ShieldQueueDBItem \<Rightarrow> bool" where
  "hasKey t h r = (txid r = t \<and> commitmentHash r = h)"

definition rowKey :: "ShieldQueueDBItem \<Rightarrow> string \<times> string" where
  "rowKey r = (txid r, commitmentHash r)"

definition uniqueIndex :: "ShieldQueueDBItem list \<Rightarrow> bool" where
  "uniqueIndex rows = distinct (map rowKey rows)"

text \<open>
  Modelled from the spec: \<^verbatim>\<open>ShieldQueueDatabase.insertPendingShield\<close> adds the shield
  with status \<open>Pending\<close> and \<open>lastValidatedTimestamp = null\<close>; inserting a key that is
  present is a no-op, so a row in a terminal state is never overwritten.
\<close>

definition pendingRow :: "ShieldData \<Rightarrow> ShieldQueueDBItem" where
  "pendingRow shieldData =
     \<lparr>txid = sd_txid shieldData,
      commitmentHash = sd_hash shieldData,
      blindedCommitment = sd_blindedCommitment shieldData,
      timestamp = sd_timestamp shieldData,
      blockNumber = sd_blockNumber shieldData,
      status = Pending,
      lastValidatedTimestamp = None\<rparr>"

definition insertPendingShield ::
  "Env \<Rightarrow> NetworkName \<Rightarrow> ShieldData \<Rightarrow> World \<Rightarrow> (error + unit) \<times> World" where
  "insertPendingShield env networkName shieldData s =
     (let s1 = logCall (InsertPendingShield networkName shieldData) s in
      case datastoreFault env (InsertPendingShield networkName shieldData) of
        Some err \<Rightarrow> (Inl err, s1)
      | None \<Rightarrow>
          if list_ex (hasKey (sd_txid shieldData) (sd_hash shieldData)) (shieldQueueDB s1 networkName)
          then (Inr (), s1)
          else (Inr (), s1\<lparr>shieldQueueDB := (shieldQueueDB s1)
                  (networkName := shieldQueueDB s1 networkName @ [pendingRow shieldData])\<rparr>))"

text \<open>
  Modelled from the spec: \<^verbatim>\<open>ShieldQueueDatabase.getPendingShields\<close> returns up to
  \<open>limit\<close> rows with \<open>status = Pending\<close> and \<open>timestamp \<le> endTimestamp\<close>, ordered by
  \<open>timestamp\<close> ascending. Rows of equal timestamp keep the order of the store.
\<close>

definition pendingShieldsQuery :: "int \<Rightarrow> nat \<Rightarrow> ShieldQueueDBItem list \<Rightarrow> ShieldQueueDBItem list" where
  "pendingShieldsQuery endTimestamp limit rows =
     take limit (sort_key timestamp
       (filter (\<lambda>r. status r = Pending \<and> timestamp r \<le> endTimestamp) rows))"

definition getPendingShields ::
  "Env \<Rightarrow> NetworkName \<Rightarrow> int \<Rightarrow> nat \<Rightarrow> World \<Rightarrow> (error + ShieldQueueDBItem list) \<times> World" where
  "getPendingShields env networkName endTimestamp limit s =
     (let s1 = logCall (GetPendingShields networkName endTimestamp limit) s in
      case datastoreFault env (GetPendingShields networkName endTimestamp limit) of
        Some err \<Rightarrow> (Inl err, s1)
      | None \<Rightarrow> (Inr (pendingShieldsQuery endTimestamp limit (shieldQueueDB s1 networkName)), s1))"

text \<open>
  Modelled from the spec: \<^verbatim>\<open>ShieldQueueDatabase.updateShieldStatus\<close> moves the row of
  the shield's key from \<open>Pending\<close> to the new status, is idempotent at the target
  status, and fails on an attempt to regress from a terminal status.
\<close>

definition setStatus :: "string \<Rightarrow> string \<Rightarrow> ShieldStatus \<Rightarrow> ShieldQueueDBItem \<Rightarrow> ShieldQueueDBItem" where
  "setStatus t h newStatus r = (if hasKey t h r then r\<lparr>status := newStatus\<rparr> else r)"

definition updateShieldStatus ::
  "Env \<Rightarrow> NetworkName \<Rightarrow> ShieldQueueDBItem \<Rightarrow> ShieldStatus \<Rightarrow> World \<Rightarrow> (error + unit) \<times> World" where
  "updateShieldStatus env networkName shieldDBItem newStatus s =
     (let s1 = logCall (UpdateShieldStatus networkName shieldDBItem newStatus) s in
      case datastoreFault env (UpdateShieldStatus networkName shieldDBItem newStatus) of
        Some err \<Rightarrow> (Inl err, s1)
      | None \<Rightarrow>
          if list_ex (\<lambda>r. hasKey (txid shieldDBItem) (commitmentHash shieldDBItem) r
                          \<and> status r \<noteq> Pending \<and> status r \<noteq> newStatus)
               (shieldQueueDB s1 networkName)
          then (Inl (Error ''shield status must not regress''), s1)
          else (Inr (), s1\<lparr>shieldQueueDB := (shieldQueueDB s1)
                  (networkName := map (setStatus (txid shieldDBItem) (commitmentHash shieldDBItem) newStatus)
                                      (shieldQueueDB s1 networkName))\<rparr>))"

text \<open>
  Modelled from the spec: \<^verbatim>\<open>ListProviderBlocklist.addBlockedShield\<close> appends a signed
  record \<open>{commitmentHash, blindedCommitment, blockReason}\<close> to the Blocked-Shield
  Store; the signature comes from the signer.
\<close>

definition addBlockedShield ::
  "Env \<Rightarrow> NetworkName \<Rightarrow> ShieldQueueDBItem \<Rightarrow> string option \<Rightarrow> World \<Rightarrow> (error + unit) \<times> World" where
  "addBlockedShield env networkName shieldDBItem reason s =
     (let s1 = logCall (AddBlockedShield networkName shieldDBItem reason) s in
      case datastoreFault env (AddBlockedShield networkName shieldDBItem reason) of
        Some err \<Rightarrow> (Inl err, s1)
      | None \<Rightarrow>
          (Inr (), s1\<lparr>blocklistDB := blocklistDB s1 @
             [(networkName,
               \<lparr>sbs_commitmentHash = commitmentHash shieldDBItem,
                sbs_blindedCommitment = blindedCommitment shieldDBItem,
                sbs_blockReason = reason,
                sbs_signature = blockedShieldSignature env (commitmentHash shieldDBItem)
                                  (blindedCommitment shieldDBItem) reason\<rparr>)]\<rparr>))"

text \<open>
  Modelled from the spec: \<^verbatim>\<open>ListProviderPOIEventQueue.queueUnsignedPOIShieldEvent\<close>
  accepts the event and buffers it for later signing.
\<close>

definition queueUnsignedPOIShieldEvent :: "NetworkName \<Rightarrow> POIEventShield \<Rightarrow> World \<Rightarrow> World" where
  "queueUnsignedPOIShieldEvent networkName poiEventShield s =
     (let s1 = logCall (QueueUnsignedPOIShieldEvent networkName poiEventShield) s in
      s1\<lparr>poiEventQueue := poiEventQueue s1 @ [(networkName, poiEventShield)]\<rparr>)"

subsection \<open>Chain observer, RPC provider and policy gate\<close>

text \<open>
  The chain observer (\<^verbatim>\<open>getNewShieldsFromWallet\<close>), the RPC provider
  (\<^verbatim>\<open>getTransactionReceipt\<close>, \<^verbatim>\<open>getTimestampFromTransactionReceipt\<close>) and the abstract
  method \<^verbatim>\<open>shouldAllowShield\<close> are parameters of the list provider: each call is traced
  and answers with the environment's response, a value or an error.
\<close>

definition getNewShieldsFromWallet ::
  "Env \<Rightarrow> NetworkName \<Rightarrow> int \<Rightarrow> World \<Rightarrow> (error + ShieldData list) \<times> World" where
  "getNewShieldsFromWallet env networkName startingBlock s =
     (walletResponse env networkName startingBlock,
      logCall (GetNewShieldsFromWallet networkName startingBlock) s)"

definition getTransactionReceipt ::
  "Env \<Rightarrow> NetworkName \<Rightarrow> string \<Rightarrow> World \<Rightarrow> (error + TransactionReceipt) \<times> World" where
  "getTransactionReceipt env networkName t s =
     (txReceiptResponse env networkName t, logCall (GetTransactionReceipt networkName t) s)"

definition getTimestampFromTransactionReceipt ::
  "Env \<Rightarrow> NetworkName \<Rightarrow> TransactionReceipt \<Rightarrow> World \<Rightarrow> (error + int) \<times> World" where
  "getTimestampFromTransactionReceipt env networkName txReceipt s =
     (timestampResponse env networkName txReceipt,
      logCall (GetTimestampFromTransactionReceipt networkName txReceipt) s)"

definition shouldAllowShield ::
  "Env \<Rightarrow> NetworkName \<Rightarrow> string \<Rightarrow> string \<Rightarrow> int \<Rightarrow> World \<Rightarrow> (error + PolicyVerdict) \<times> World" where
  "shouldAllowShield env networkName t fromAddressLowercase ts s =
     (policyResponse env networkName t fromAddressLowercase ts,
      logCall (ShouldAllowShield networkName t fromAddressLowercase ts) s)"

text \<open>
  Modelled from the spec: \<^verbatim>\<open>hoursAgo\<close> (\<^verbatim>\<open>util/time-ago\<close>, not part of the sources), the
  current time minus the given number of hours, in milliseconds.
\<close>

definition hoursAgo :: "Env \<Rightarrow> int \<Rightarrow> int" where
  "hoursAgo env hours = dateNow env - hours * 60 * 60 * 1000"

subsection \<open>The list provider\<close>

text \<open>
  \<^verbatim>\<open>queueShieldSafe\<close>, lines 472-486: the insertion runs inside \<^verbatim>\<open>try\<close>; the
  \<^verbatim>\<open>catch\<close> logs and returns.
\<close>

definition queueShieldSafe :: "Env \<Rightarrow> NetworkName \<Rightarrow> ShieldData \<Rightarrow> World \<Rightarrow> World" where
  "queueShieldSafe env networkName shieldData s =
     (case insertPendingShield env networkName shieldData s of
        (Inl err, s1) \<Rightarrow> s1
      | (Inr u, s1) \<Rightarrow> s1)"

text \<open>
  \<^verbatim>\<open>queueNewShields\<close>, lines 444-470. Nothing is caught here: a failure of
  \<^verbatim>\<open>getStatus\<close>, of the chain observer or of \<^verbatim>\<open>saveStatus\<close> rejects the promise.
\<close>

definition queueNewShields :: "Env \<Rightarrow> NetworkName \<Rightarrow> World \<Rightarrow> (error + unit) \<times> World" where
  "queueNewShields env networkName s =
     (case getStatus env networkName s of
        (Inl err, s1) \<Rightarrow> (Inl err, s1)
      | (Inr latest, s1) \<Rightarrow>
          (let startingBlock =
                 (case latest of Some b \<Rightarrow> b | None \<Rightarrow> deploymentBlock env networkName)
           in case getNewShieldsFromWallet env networkName startingBlock s1 of
                (Inl err, s2) \<Rightarrow> (Inl err, s2)
              | (Inr newShields, s2) \<Rightarrow>
                  (let s3 = fold (queueShieldSafe env networkName) newShields s2
                   in if length newShields > 0
                      then (let lastShieldScanned = last newShields;
                                latestBlockScanned = sd_blockNumber lastShieldScanned
                            in saveStatus env networkName latestBlockScanned s3)
                      else (Inr (), s3))))"

text \<open>\<^verbatim>\<open>getMaxTimestampForValidation\<close>, lines 488-490.\<close>

definition getMaxTimestampForValidation :: "Env \<Rightarrow> int" where
  "getMaxTimestampForValidation env = hoursAgo env (HOURS_SHIELD_PENDING_PERIOD env)"

text \<open>
  \<^verbatim>\<open>validateShield\<close>, lines 522-577. \<open>validateShieldTry\<close> is the body of the \<^verbatim>\<open>try\<close>
  block (lines 529-571), with an error for every statement that can throw;
  \<open>validateShield\<close> adds the \<^verbatim>\<open>catch\<close>, which logs and returns.
\<close>

definition validateShieldTry ::
  "Env \<Rightarrow> NetworkName \<Rightarrow> ShieldQueueDBItem \<Rightarrow> int \<Rightarrow> World \<Rightarrow> (error + unit) \<times> World" where
  "validateShieldTry env networkName shieldDBItem endTimestamp s =
     (case getTransactionReceipt env networkName (txid shieldDBItem) s of
        (Inl err, s1) \<Rightarrow> (Inl err, s1)
      | (Inr txReceipt, s1) \<Rightarrow>
          (case getTimestampFromTransactionReceipt env networkName txReceipt s1 of
             (Inl err, s2) \<Rightarrow> (Inl err, s2)
           | (Inr ts, s2) \<Rightarrow>
               if ts > endTimestamp
               then (Inl (Error ''Invalid timestamp''), s2)
               else
                 (case shouldAllowShield env networkName (txid shieldDBItem)
                         (toLowerCase (receipt_from txReceipt)) ts s2 of
                    (Inl err, s3) \<Rightarrow> (Inl err, s3)
                  | (Inr verdict, s3) \<Rightarrow>
                      if shouldAllow verdict
                      then
                        (let poiEventShield =
                               \<lparr>ev_blindedCommitment = blindedCommitment shieldDBItem,
                                ev_commitmentHash = commitmentHash shieldDBItem\<rparr>;
                             s4 = queueUnsignedPOIShieldEvent networkName poiEventShield s3
                         in updateShieldStatus env networkName shieldDBItem Allowed s4)
                      else
                        (case addBlockedShield env networkName shieldDBItem
                                (blockReason verdict) s3 of
                           (Inl err, s4) \<Rightarrow> (Inl err, s4)
                         | (Inr u, s4) \<Rightarrow>
                             updateShieldStatus env networkName shieldDBItem Blocked s4))))"

definition validateShield ::
  "Env \<Rightarrow> NetworkName \<Rightarrow> ShieldQueueDBItem \<Rightarrow> int \<Rightarrow> World \<Rightarrow> World" where
  "validateShield env networkName shieldDBItem endTimestamp s =
     (case validateShieldTry env networkName shieldDBItem endTimestamp s of
        (Inl err, s1) \<Rightarrow> s1
      | (Inr u, s1) \<Rightarrow> s1)"

text \<open>\<^verbatim>\<open>validateNextQueuedShieldBatch\<close>, lines 492-520.\<close>

definition validateNextQueuedShieldBatch :: "Env \<Rightarrow> NetworkName \<Rightarrow> World \<Rightarrow> World" where
  "validateNextQueuedShieldBatch env networkName s =
     (let endTimestamp = getMaxTimestampForValidation env;
          limit = 100
      in case getPendingShields env networkName endTimestamp limit s of
           (Inl err, s1) \<Rightarrow> s1
         | (Inr pendingShields, s1) \<Rightarrow>
             if length pendingShields = 0 then s1
             else fold (\<lambda>shieldData. validateShield env networkName shieldData endTimestamp)
                    pendingShields s1)"

text \<open>
  The pollers, lines 412-442. Each iteration visits the networks in series, sleeps, and
  starts the next iteration; the recursion has no exit. The model runs a given number of
  iterations, the \<open>i\<close>-th one against the environment \<open>envs i\<close> (time and chain move on
  between iterations), and returns the delays slept. An error of \<^verbatim>\<open>queueNewShields\<close>
  is not caught: it ends the queue-shields poller.
\<close>

fun queueAllNetworks :: "Env \<Rightarrow> NetworkName list \<Rightarrow> World \<Rightarrow> (error + unit) \<times> World" where
  "queueAllNetworks env [] s = (Inr (), s)"
| "queueAllNetworks env (networkName # rest) s =
     (case queueNewShields env networkName s of
        (Inl err, s1) \<Rightarrow> (Inl err, s1)
      | (Inr u, s1) \<Rightarrow> queueAllNetworks env rest s1)"

fun runQueueShieldsPoller ::
  "nat \<Rightarrow> (nat \<Rightarrow> Env) \<Rightarrow> ListProviderConfig \<Rightarrow> World \<Rightarrow> (error option \<times> int list) \<times> World" where
  "runQueueShieldsPoller 0 envs config s = ((None, []), s)"
| "runQueueShieldsPoller (Suc k) envs config s =
     (case queueAllNetworks (envs 0) (NETWORK_NAMES (envs 0)) s of
        (Inl err, s1) \<Rightarrow> ((Some err, []), s1)
      | (Inr u, s1) \<Rightarrow>
          (case runQueueShieldsPoller k (\<lambda>i. envs (Suc i)) config s1 of
             ((r, delays), s2) \<Rightarrow> ((r, queueShieldsPollerDelay config # delays), s2)))"

fun runValidateQueuedShieldsPoller ::
  "nat \<Rightarrow> (nat \<Rightarrow> Env) \<Rightarrow> ListProviderConfig \<Rightarrow> World \<Rightarrow> int list \<times> World" where
  "runValidateQueuedShieldsPoller 0 envs config s = ([], s)"
| "runValidateQueuedShieldsPoller (Suc k) envs config s =
     (let s1 = fold (validateNextQueuedShieldBatch (envs 0)) (NETWORK_NAMES (envs 0)) s
      in case runValidateQueuedShieldsPoller k (\<lambda>i. envs (Suc i)) config s1 of
           (delays, s2) \<Rightarrow> (validateQueuedShieldsPollerDelay config # delays, s2))"

subsection \<open>Requests to a remote node\<close>

text \<open>
  \<^verbatim>\<open>POINodeRequest\<close>, lines 36-333. The signer, \<^verbatim>\<open>isListProvider\<close>, the network table
  and the HTTP client are collaborators; the state of this module is the trace of the
  calls made to them.
\<close>

record Chain =
  chain_type :: nat
  chain_id :: nat

datatype PostParams =
    RemoveTransactProofParams TXIDVersion string "string list" string string
  | SubmitValidatedTxidAndMerklerootParams TXIDVersion int string string string

datatype RequestCall =
    GetListPublicKey
  | SignRemoveProof "string list" string
  | SignValidatedTxidMerkleroot int string
  | AxiosPost string PostParams

record RequestEnv =
  NETWORK_CONFIG :: "NetworkName \<Rightarrow> Chain"
  isListProvider :: bool
  listPublicKeyResponse :: "error + string"
  removeProofSignature :: "string list \<Rightarrow> string \<Rightarrow> error + string"
  validatedTxidSignature :: "int \<Rightarrow> string \<Rightarrow> error + string"
  axiosPostResponse :: "string \<Rightarrow> PostParams \<Rightarrow> error + unit"

text \<open>A number inside a template literal: its decimal digits.\<close>

fun showNat :: "nat \<Rightarrow> string" where
  "showNat n =
     (if n < 10 then [char_of (48 + n)]
      else showNat (n div 10) @ [char_of (48 + n mod 10)])"

declare showNat.simps [simp del]

text \<open>\<^verbatim>\<open>getNodeRouteURL\<close>, lines 37-39.\<close>

definition getNodeRouteURL :: "string \<Rightarrow> string \<Rightarrow> string" where
  "getNodeRouteURL url route = url @ ''/'' @ route"

text \<open>
  \<^verbatim>\<open>postRequest\<close>, lines 57-72: an \<^verbatim>\<open>AxiosError\<close> is rethrown as an \<^verbatim>\<open>Error\<close> whose
  message is \<^verbatim>\<open>`${err.message}: ${err.response?.data}`\<close>; any other error is rethrown as
  it is.
\<close>

definition postRequest ::
  "RequestEnv \<Rightarrow> string \<Rightarrow> PostParams \<Rightarrow> RequestCall list \<Rightarrow> (error + unit) \<times> RequestCall list" where
  "postRequest renv url params tr =
     (let tr1 = tr @ [AxiosPost url params] in
      case axiosPostResponse renv url params of
        Inr data \<Rightarrow> (Inr data, tr1)
      | Inl (AxiosError message responseData) \<Rightarrow>
          (Inl (Error (message @ '': '' @
                  (case responseData of Some d \<Rightarrow> d | None \<Rightarrow> ''undefined''))), tr1)
      | Inl (Error message) \<Rightarrow> (Inl (Error message), tr1))"

definition getListPublicKey :: "RequestEnv \<Rightarrow> RequestCall list \<Rightarrow> (error + string) \<times> RequestCall list" where
  "getListPublicKey renv tr = (listPublicKeyResponse renv, tr @ [GetListPublicKey])"

definition signRemoveProof ::
  "RequestEnv \<Rightarrow> string list \<Rightarrow> string \<Rightarrow> RequestCall list \<Rightarrow> (error + string) \<times> RequestCall list" where
  "signRemoveProof renv blindedCommitmentsOut railgunTxidIfHasUnshield tr =
     (removeProofSignature renv blindedCommitmentsOut railgunTxidIfHasUnshield,
      tr @ [SignRemoveProof blindedCommitmentsOut railgunTxidIfHasUnshield])"

definition signValidatedTxidMerkleroot ::
  "RequestEnv \<Rightarrow> int \<Rightarrow> string \<Rightarrow> RequestCall list \<Rightarrow> (error + string) \<times> RequestCall list" where
  "signValidatedTxidMerkleroot renv txidIndex merkleroot tr =
     (validatedTxidSignature renv txidIndex merkleroot,
      tr @ [SignValidatedTxidMerkleroot txidIndex merkleroot])"

text \<open>\<^verbatim>\<open>removeTransactProof\<close>, lines 253-282.\<close>

definition removeTransactProof ::
  "RequestEnv \<Rightarrow> string \<Rightarrow> NetworkName \<Rightarrow> TXIDVersion \<Rightarrow> string \<Rightarrow> string list \<Rightarrow> string
     \<Rightarrow> RequestCall list \<Rightarrow> (error + unit) \<times> RequestCall list" where
  "removeTransactProof renv nodeURL networkName txidVersion listKey blindedCommitmentsOut
       railgunTxidIfHasUnshield tr =
     (let chain = NETWORK_CONFIG renv networkName;
          route = ''remove-transact-proof/'' @ showNat (chain_type chain) @ ''/''
                    @ showNat (chain_id chain);
          url = getNodeRouteURL nodeURL route
      in if \<not> isListProvider renv then (Inr (), tr)
         else
           (case signRemoveProof renv blindedCommitmentsOut railgunTxidIfHasUnshield tr of
              (Inl err, tr1) \<Rightarrow> (Inl err, tr1)
            | (Inr signature, tr1) \<Rightarrow>
                postRequest renv url
                  (RemoveTransactProofParams txidVersion listKey blindedCommitmentsOut
                     railgunTxidIfHasUnshield signature) tr1))"

text \<open>\<^verbatim>\<open>submitValidatedTxidAndMerkleroot\<close>, lines 302-332.\<close>

definition submitValidatedTxidAndMerkleroot ::
  "RequestEnv \<Rightarrow> string \<Rightarrow> NetworkName \<Rightarrow> TXIDVersion \<Rightarrow> int \<Rightarrow> string
     \<Rightarrow> RequestCall list \<Rightarrow> (error + unit) \<times> RequestCall list" where
  "submitValidatedTxidAndMerkleroot renv nodeURL networkName txidVersion txidIndex merkleroot tr =
     (let chain = NETWORK_CONFIG renv networkName;
          route = ''submit-validated-txid/'' @ showNat (chain_type chain) @ ''/''
                    @ showNat (chain_id chain);
          url = getNodeRouteURL nodeURL route
      in case getListPublicKey renv tr of
           (Inl err, tr1) \<Rightarrow> (Inl err, tr1)
         | (Inr listKey, tr1) \<Rightarrow>
             if \<not> isListProvider renv then (Inr (), tr1)
             else
               (case signValidatedTxidMerkleroot renv txidIndex merkleroot tr1 of
                  (Inl err, tr2) \<Rightarrow> (Inl err, tr2)
                | (Inr signature, tr2) \<Rightarrow>
                    postRequest renv url
                      (SubmitValidatedTxidAndMerklerootParams txidVersion txidIndex merkleroot
                         signature listKey) tr2))"

subsection \<open>A concrete list provider\<close>

text \<open>
  A policy that blocks the addresses of a given list and allows every other one, as the
  list provider of the tests does, and a small environment and state around it: one
  network, one pending shield mined at time 1000, a pending period of one hour and a
  clock at 3 605 000, so that the cutoff for validation is 5000.
\<close>

definition excludingPolicy ::
  "string list \<Rightarrow> NetworkName \<Rightarrow> string \<Rightarrow> string \<Rightarrow> int \<Rightarrow> error + PolicyVerdict" where
  "excludingPolicy excluded networkName t fromAddressLowercase ts =
     (if fromAddressLowercase \<in> set excluded
      then Inr \<lparr>shouldAllow = False, blockReason = Some ''excluded''\<rparr>
      else Inr \<lparr>shouldAllow = True, blockReason = None\<rparr>)"

definition exampleShield :: ShieldData where
  "exampleShield =
     \<lparr>sd_txid = ''0x1234'', sd_hash = ''0x5678'', sd_blindedCommitment = ''0x9abc'',
      sd_timestamp = 1000, sd_blockNumber = 7\<rparr>"

definition exampleRow :: ShieldQueueDBItem where
  "exampleRow = pendingRow exampleShield"

definition exampleShield2 :: ShieldData where
  "exampleShield2 =
     \<lparr>sd_txid = ''0x9876'', sd_hash = ''0x5432'', sd_blindedCommitment = ''0xdef0'',
      sd_timestamp = 2000, sd_blockNumber = 9\<rparr>"

definition exampleRow2 :: ShieldQueueDBItem where
  "exampleRow2 = pendingRow exampleShield2"

definition exampleReceipt :: TransactionReceipt where
  "exampleReceipt = \<lparr>receipt_from = ''0xAbCd'', receipt_blockNumber = 7\<rparr>"

definition exampleEnv :: "string list \<Rightarrow> Env" where
  "exampleEnv excluded =
     \<lparr>NETWORK_NAMES = [''Ethereum''],
      deploymentBlock = (\<lambda>n. 3),
      HOURS_SHIELD_PENDING_PERIOD = 1,
      dateNow = 3605000,
      walletResponse = (\<lambda>n b. Inr [exampleShield]),
      txReceiptResponse = (\<lambda>n t. Inr exampleReceipt),
      timestampResponse = (\<lambda>n r. Inr 1000),
      policyResponse = excludingPolicy excluded,
      blockedShieldSignature = (\<lambda>h b r. ''signature''),
      datastoreFault = (\<lambda>c. None)\<rparr>"

definition emptyWorld :: World where
  "emptyWorld =
     \<lparr>shieldQueueDB = (\<lambda>n. []), statusDB = (\<lambda>n. None), poiEventQueue = [],
      blocklistDB = [], calls = []\<rparr>"

definition exampleWorld :: World where
  "exampleWorld = emptyWorld\<lparr>shieldQueueDB := (\<lambda>n. [])(''Ethereum'' := [exampleRow])\<rparr>"

text \<open>
  A node that is, or is not, configured as a list provider; the signer and the remote
  node answer every call.
\<close>

definition exampleRequestEnv :: "bool \<Rightarrow> RequestEnv" where
  "exampleRequestEnv listProvider =
     \<lparr>NETWORK_CONFIG = (\<lambda>n. \<lparr>chain_type = 0, chain_id = 1\<rparr>),
      isListProvider = listProvider,
      listPublicKeyResponse = Inr ''listkey'',
      removeProofSignature = (\<lambda>bs t. Inr ''signature''),
      validatedTxidSignature = (\<lambda>i m. Inr ''signature''),
      axiosPostResponse = (\<lambda>url params. Inr ())\<rparr>"

section \<open>Properties\<close>

subsection \<open>Shared lemmas\<close>

lemmas rpc_defs = getTransactionReceipt_def getTimestampFromTransactionReceipt_def
  shouldAllowShield_def getNewShieldsFromWallet_def logCall_def

lemmas example_defs = exampleEnv_def exampleWorld_def emptyWorld_def exampleRow_def
  exampleShield_def exampleReceipt_def pendingRow_def excludingPolicy_def

lemma toLowerCase_example: "toLowerCase ''0xAbCd'' = ''0xabcd''"
  by code_simp

lemma hasKey_unique:
  assumes "uniqueIndex rows" "row \<in> set rows" "r \<in> set rows"
  shows "hasKey (txid row) (commitmentHash row) r \<longleftrightarrow> r = row"
proof -
  from assms(1) have "inj_on rowKey (set rows)"
    by (simp add: uniqueIndex_def distinct_map)
  with assms(2,3) have "rowKey r = rowKey row \<longleftrightarrow> r = row"
    by (auto dest: inj_onD)
  then show ?thesis by (auto simp: hasKey_def rowKey_def)
qed

lemma updateShieldStatus_pending:
  assumes fault: "datastoreFault env (UpdateShieldStatus net row st) = None"
    and row: "row \<in> set (shieldQueueDB s net)" "status row = Pending"
    and uniq: "uniqueIndex (shieldQueueDB s net)"
  shows "updateShieldStatus env net row st s =
           (Inr (), s\<lparr>calls := calls s @ [UpdateShieldStatus net row st],
                      shieldQueueDB := (shieldQueueDB s)
                        (net := map (\<lambda>r. if r = row then row\<lparr>status := st\<rparr> else r)
                                  (shieldQueueDB s net))\<rparr>)"
proof -
  have no_regress: "\<not> list_ex (\<lambda>r. hasKey (txid row) (commitmentHash row) r
                          \<and> status r \<noteq> Pending \<and> status r \<noteq> st) (shieldQueueDB s net)"
    using hasKey_unique [OF uniq row(1)] row(2) by (auto simp: list_ex_iff)
  have upd: "map (setStatus (txid row) (commitmentHash row) st) (shieldQueueDB s net)
             = map (\<lambda>r. if r = row then row\<lparr>status := st\<rparr> else r) (shieldQueueDB s net)"
    using hasKey_unique [OF uniq row(1)] by (intro map_cong) (auto simp: setStatus_def)
  show ?thesis
    using fault no_regress by (simp add: updateShieldStatus_def logCall_def upd)
qed

lemma validateShieldTry_too_new:
  assumes "txReceiptResponse env net (txid row) = Inr r"
    and "timestampResponse env net r = Inr ts"
    and "ts > endTs"
  shows "validateShieldTry env net row endTs s =
           (Inl (Error ''Invalid timestamp''),
            s\<lparr>calls := calls s @ [GetTransactionReceipt net (txid row),
                                  GetTimestampFromTransactionReceipt net r]\<rparr>)"
  using assms by (simp add: validateShieldTry_def rpc_defs)

lemma validateShieldTry_allow:
  assumes rcpt: "txReceiptResponse env net (txid row) = Inr r"
    and ts: "timestampResponse env net r = Inr ts"
    and elig: "ts \<le> endTs"
    and gate: "policyResponse env net (txid row) (toLowerCase (receipt_from r)) ts = Inr verdict"
    and allow: "shouldAllow verdict"
    and fault: "datastoreFault env (UpdateShieldStatus net row Allowed) = None"
    and row: "row \<in> set (shieldQueueDB s net)" "status row = Pending"
    and uniq: "uniqueIndex (shieldQueueDB s net)"
  shows "validateShieldTry env net row endTs s =
     (Inr (),
      s\<lparr>calls := calls s @
           [GetTransactionReceipt net (txid row),
            GetTimestampFromTransactionReceipt net r,
            ShouldAllowShield net (txid row) (toLowerCase (receipt_from r)) ts,
            QueueUnsignedPOIShieldEvent net
              \<lparr>ev_blindedCommitment = blindedCommitment row,
               ev_commitmentHash = commitmentHash row\<rparr>,
            UpdateShieldStatus net row Allowed],
        poiEventQueue := poiEventQueue s @
           [(net, \<lparr>ev_blindedCommitment = blindedCommitment row,
                   ev_commitmentHash = commitmentHash row\<rparr>)],
        shieldQueueDB := (shieldQueueDB s)
           (net := map (\<lambda>r. if r = row then row\<lparr>status := Allowed\<rparr> else r)
                     (shieldQueueDB s net))\<rparr>)"
  using rcpt ts elig gate allow
  apply (simp add: validateShieldTry_def rpc_defs queueUnsignedPOIShieldEvent_def Let_def)
  apply (subst updateShieldStatus_pending)
  using fault row uniq apply simp_all
  done

lemma validateShieldTry_block:
  assumes rcpt: "txReceiptResponse env net (txid row) = Inr r"
    and ts: "timestampResponse env net r = Inr ts"
    and elig: "ts \<le> endTs"
    and gate: "policyResponse env net (txid row) (toLowerCase (receipt_from r)) ts = Inr verdict"
    and block: "\<not> shouldAllow verdict"
    and fault: "datastoreFault env (AddBlockedShield net row (blockReason verdict)) = None"
               "datastoreFault env (UpdateShieldStatus net row Blocked) = None"
    and row: "row \<in> set (shieldQueueDB s net)" "status row = Pending"
    and uniq: "uniqueIndex (shieldQueueDB s net)"
  shows "validateShieldTry env net row endTs s =
     (Inr (),
      s\<lparr>calls := calls s @
           [GetTransactionReceipt net (txid row),
            GetTimestampFromTransactionReceipt net r,
            ShouldAllowShield net (txid row) (toLowerCase (receipt_from r)) ts,
            AddBlockedShield net row (blockReason verdict),
            UpdateShieldStatus net row Blocked],
        blocklistDB := blocklistDB s @
           [(net, \<lparr>sbs_commitmentHash = commitmentHash row,
                   sbs_blindedCommitment = blindedCommitment row,
                   sbs_blockReason = blockReason verdict,
                   sbs_signature = blockedShieldSignature env (commitmentHash row)
                                     (blindedCommitment row) (blockReason verdict)\<rparr>)],
        shieldQueueDB := (shieldQueueDB s)
           (net := map (\<lambda>r. if r = row then row\<lparr>status := Blocked\<rparr> else r)
                     (shieldQueueDB s net))\<rparr>)"
  using rcpt ts elig gate block fault(1)
  apply (simp add: validateShieldTry_def rpc_defs addBlockedShield_def Let_def)
  apply (subst updateShieldStatus_pending)
  using fault(2) row uniq apply simp_all
  done

subsection \<open>The validation of one shield\<close>

text \<open>
  C6. If the receipt of the row's transaction is found and the timestamp derived from it
  is greater than \<open>endTimestamp\<close>, \<open>validateShield\<close> leaves every store as it was (the
  row keeps its status, no event is queued, no blocked-shield record is written), and the
  only collaborators it has called are the two RPC lookups: the policy gate is not
  consulted.
\<close>

theorem validateShield_too_new_is_aborted:
  assumes "txReceiptResponse env net (txid row) = Inr r"
    and "timestampResponse env net r = Inr ts"
    and "ts > endTimestamp"
  shows "validateShield env net row endTimestamp s =
           s\<lparr>calls := calls s @ [GetTransactionReceipt net (txid row),
                                 GetTimestampFromTransactionReceipt net r]\<rparr>
         \<and> shieldQueueDB (validateShield env net row endTimestamp s) = shieldQueueDB s
         \<and> poiEventQueue (validateShield env net row endTimestamp s) = poiEventQueue s
         \<and> blocklistDB (validateShield env net row endTimestamp s) = blocklistDB s"
  using validateShieldTry_too_new [OF assms, of s] by (simp add: validateShield_def)

theorem validateShield_too_new_is_aborted_witness:
  "validateShield ((exampleEnv [])\<lparr>timestampResponse := (\<lambda>n r. Inr 9000)\<rparr>)
       ''Ethereum'' exampleRow 5000 exampleWorld =
     exampleWorld\<lparr>calls := [GetTransactionReceipt ''Ethereum'' ''0x1234'',
                             GetTimestampFromTransactionReceipt ''Ethereum'' exampleReceipt]\<rparr>
   \<and> map status (shieldQueueDB
        (validateShield ((exampleEnv [])\<lparr>timestampResponse := (\<lambda>n r. Inr 9000)\<rparr>)
           ''Ethereum'' exampleRow 5000 exampleWorld) ''Ethereum'') = [Pending]"
  using validateShield_too_new_is_aborted
    [of "(exampleEnv [])\<lparr>timestampResponse := (\<lambda>n r. Inr 9000)\<rparr>" "''Ethereum''"
        exampleRow exampleReceipt 9000 5000 exampleWorld]
  by (simp add: example_defs)

lemma updateShieldStatus_other_stores:
  "poiEventQueue (snd (updateShieldStatus env net row st s)) = poiEventQueue s"
  "blocklistDB (snd (updateShieldStatus env net row st s)) = blocklistDB s"
  by (simp_all add: updateShieldStatus_def logCall_def Let_def split: option.splits)

lemma addBlockedShield_other_stores:
  "poiEventQueue (snd (addBlockedShield env net row reason s)) = poiEventQueue s"
  "datastoreFault env (AddBlockedShield net row reason) = None \<Longrightarrow>
     blocklistDB (snd (addBlockedShield env net row reason s)) = blocklistDB s @
       [(net, \<lparr>sbs_commitmentHash = commitmentHash row,
               sbs_blindedCommitment = blindedCommitment row,
               sbs_blockReason = reason,
               sbs_signature = blockedShieldSignature env (commitmentHash row)
                                 (blindedCommitment row) reason\<rparr>)]"
  by (simp_all add: addBlockedShield_def logCall_def Let_def split: option.splits)

lemma validateShield_allow_stores:
  assumes "txReceiptResponse env net (txid row) = Inr r"
    and "timestampResponse env net r = Inr ts"
    and "ts \<le> endTs"
    and "policyResponse env net (txid row) (toLowerCase (receipt_from r)) ts = Inr verdict"
    and "shouldAllow verdict"
  shows "poiEventQueue (validateShield env net row endTs s) = poiEventQueue s @
           [(net, \<lparr>ev_blindedCommitment = blindedCommitment row,
                   ev_commitmentHash = commitmentHash row\<rparr>)]"
    and "blocklistDB (validateShield env net row endTs s) = blocklistDB s"
  using assms
  by (simp_all add: validateShield_def validateShieldTry_def rpc_defs Let_def
        queueUnsignedPOIShieldEvent_def case_prod_beta updateShieldStatus_other_stores)

lemma validateShield_block_stores:
  assumes "txReceiptResponse env net (txid row) = Inr r"
    and "timestampResponse env net r = Inr ts"
    and "ts \<le> endTs"
    and "policyResponse env net (txid row) (toLowerCase (receipt_from r)) ts = Inr verdict"
    and "\<not> shouldAllow verdict"
  shows "poiEventQueue (validateShield env net row endTs s) = poiEventQueue s"
    and "datastoreFault env (AddBlockedShield net row (blockReason verdict)) = None \<Longrightarrow>
         blocklistDB (validateShield env net row endTs s) = blocklistDB s @
           [(net, \<lparr>sbs_commitmentHash = commitmentHash row,
                   sbs_blindedCommitment = blindedCommitment row,
                   sbs_blockReason = blockReason verdict,
                   sbs_signature = blockedShieldSignature env (commitmentHash row)
                                     (blindedCommitment row) (blockReason verdict)\<rparr>)]"
  using assms
  by (auto simp: validateShield_def validateShieldTry_def rpc_defs Let_def
        case_prod_beta updateShieldStatus_other_stores addBlockedShield_other_stores
        split: sum.splits)

text \<open>
  C4. Let the receipt lookup for the row return a timestamp not after \<open>endTimestamp\<close>,
  and let the policy gate return a verdict.
  \<^item> If the verdict is allow, exactly one event is queued, a \<open>POIEventShield\<close> with the
    row's \<open>commitmentHash\<close> and \<open>blindedCommitment\<close>, and the blocklist is unchanged; the
    status of the row, a pending row of the queue, becomes \<open>Allowed\<close>.
  \<^item> If the verdict is block, the event queue is unchanged; exactly one signed record
    with the row's \<open>commitmentHash\<close>, \<open>blindedCommitment\<close> and the verdict's reason is
    added to the blocklist; the status of the row becomes \<open>Blocked\<close>.

  The effects on the stores are those of writes the data store does not refuse; the
  row is found under the queue's unique index on \<open>(txid, hash)\<close>.
\<close>

theorem validateShield_allow_or_block:
  assumes rcpt: "txReceiptResponse env net (txid row) = Inr r"
    and ts: "timestampResponse env net r = Inr ts"
    and elig: "ts \<le> endTimestamp"
    and gate: "policyResponse env net (txid row) (toLowerCase (receipt_from r)) ts = Inr verdict"
    and s': "s' = validateShield env net row endTimestamp s"
  shows "(shouldAllow verdict \<longrightarrow>
          poiEventQueue s' = poiEventQueue s @
             [(net, \<lparr>ev_blindedCommitment = blindedCommitment row,
                     ev_commitmentHash = commitmentHash row\<rparr>)]
          \<and> blocklistDB s' = blocklistDB s
          \<and> (row \<in> set (shieldQueueDB s net) \<and> status row = Pending
               \<and> uniqueIndex (shieldQueueDB s net)
               \<and> datastoreFault env (UpdateShieldStatus net row Allowed) = None \<longrightarrow>
             shieldQueueDB s' = (shieldQueueDB s)
               (net := map (\<lambda>r. if r = row then row\<lparr>status := Allowed\<rparr> else r)
                         (shieldQueueDB s net))))
       \<and> (\<not> shouldAllow verdict \<longrightarrow>
          poiEventQueue s' = poiEventQueue s
          \<and> (datastoreFault env (AddBlockedShield net row (blockReason verdict)) = None \<longrightarrow>
             blocklistDB s' = blocklistDB s @
               [(net, \<lparr>sbs_commitmentHash = commitmentHash row,
                       sbs_blindedCommitment = blindedCommitment row,
                       sbs_blockReason = blockReason verdict,
                       sbs_signature = blockedShieldSignature env (commitmentHash row)
                                         (blindedCommitment row) (blockReason verdict)\<rparr>)]
             \<and> (row \<in> set (shieldQueueDB s net) \<and> status row = Pending
                  \<and> uniqueIndex (shieldQueueDB s net)
                  \<and> datastoreFault env (UpdateShieldStatus net row Blocked) = None \<longrightarrow>
                shieldQueueDB s' = (shieldQueueDB s)
                  (net := map (\<lambda>r. if r = row then row\<lparr>status := Blocked\<rparr> else r)
                            (shieldQueueDB s net)))))"
proof (intro conjI impI)
  assume allow: "shouldAllow verdict"
  show "poiEventQueue s' = poiEventQueue s @
             [(net, \<lparr>ev_blindedCommitment = blindedCommitment row,
                     ev_commitmentHash = commitmentHash row\<rparr>)]"
    unfolding s' by (rule validateShield_allow_stores(1) [OF rcpt ts elig gate allow])
  show "blocklistDB s' = blocklistDB s"
    unfolding s' by (rule validateShield_allow_stores(2) [OF rcpt ts elig gate allow])
  assume "row \<in> set (shieldQueueDB s net) \<and> status row = Pending
               \<and> uniqueIndex (shieldQueueDB s net)
               \<and> datastoreFault env (UpdateShieldStatus net row Allowed) = None"
  then have row: "row \<in> set (shieldQueueDB s net)" "status row = Pending"
    and uniq: "uniqueIndex (shieldQueueDB s net)"
    and fault: "datastoreFault env (UpdateShieldStatus net row Allowed) = None"
    by simp_all
  from validateShieldTry_allow [OF rcpt ts elig gate allow fault row uniq]
  show "shieldQueueDB s' = (shieldQueueDB s)
               (net := map (\<lambda>r. if r = row then row\<lparr>status := Allowed\<rparr> else r)
                         (shieldQueueDB s net))"
    by (simp add: s' validateShield_def)
next
  assume block: "\<not> shouldAllow verdict"
  show "poiEventQueue s' = poiEventQueue s"
    unfolding s' by (rule validateShield_block_stores(1) [OF rcpt ts elig gate block])
  assume written: "datastoreFault env (AddBlockedShield net row (blockReason verdict)) = None"
  show "blocklistDB s' = blocklistDB s @
               [(net, \<lparr>sbs_commitmentHash = commitmentHash row,
                       sbs_blindedCommitment = blindedCommitment row,
                       sbs_blockReason = blockReason verdict,
                       sbs_signature = blockedShieldSignature env (commitmentHash row)
                                         (blindedCommitment row) (blockReason verdict)\<rparr>)]"
    unfolding s' by (rule validateShield_block_stores(2) [OF rcpt ts elig gate block written])
  assume "row \<in> set (shieldQueueDB s net) \<and> status row = Pending
                  \<and> uniqueIndex (shieldQueueDB s net)
                  \<and> datastoreFault env (UpdateShieldStatus net row Blocked) = None"
  then have row: "row \<in> set (shieldQueueDB s net)" "status row = Pending"
    and uniq: "uniqueIndex (shieldQueueDB s net)"
    and fault: "datastoreFault env (UpdateShieldStatus net row Blocked) = None"
    by simp_all
  from validateShieldTry_block [OF rcpt ts elig gate block written fault row uniq]
  show "shieldQueueDB s' = (shieldQueueDB s)
                  (net := map (\<lambda>r. if r = row then row\<lparr>status := Blocked\<rparr> else r)
                            (shieldQueueDB s net))"
    by (simp add: s' validateShield_def)
qed

theorem validateShield_allow_or_block_witness:
  "poiEventQueue (validateShield (exampleEnv []) ''Ethereum'' exampleRow 5000 exampleWorld) =
     [(''Ethereum'', \<lparr>ev_blindedCommitment = ''0x9abc'', ev_commitmentHash = ''0x5678''\<rparr>)]
   \<and> map status (shieldQueueDB
        (validateShield (exampleEnv []) ''Ethereum'' exampleRow 5000 exampleWorld) ''Ethereum'')
       = [Allowed]
   \<and> blocklistDB (validateShield (exampleEnv []) ''Ethereum'' exampleRow 5000 exampleWorld) = []
   \<and> blocklistDB
        (validateShield (exampleEnv [''0xabcd'']) ''Ethereum'' exampleRow 5000 exampleWorld) =
     [(''Ethereum'', \<lparr>sbs_commitmentHash = ''0x5678'', sbs_blindedCommitment = ''0x9abc'',
                      sbs_blockReason = Some ''excluded'', sbs_signature = ''signature''\<rparr>)]
   \<and> map status (shieldQueueDB
        (validateShield (exampleEnv [''0xabcd'']) ''Ethereum'' exampleRow 5000 exampleWorld)
          ''Ethereum'')
       = [Blocked]
   \<and> poiEventQueue
        (validateShield (exampleEnv [''0xabcd'']) ''Ethereum'' exampleRow 5000 exampleWorld) = []"
  using
    validateShield_allow_or_block
      [where env = "exampleEnv []" and net = "''Ethereum''" and row = exampleRow
         and r = exampleReceipt and ts = 1000 and endTimestamp = 5000
         and verdict = "\<lparr>shouldAllow = True, blockReason = None\<rparr>" and s = exampleWorld
         and s' = "validateShield (exampleEnv []) ''Ethereum'' exampleRow 5000 exampleWorld"]
    validateShield_allow_or_block
      [where env = "exampleEnv [''0xabcd'']" and net = "''Ethereum''" and row = exampleRow
         and r = exampleReceipt and ts = 1000 and endTimestamp = 5000
         and verdict = "\<lparr>shouldAllow = False, blockReason = Some ''excluded''\<rparr>"
         and s = exampleWorld
         and s' = "validateShield (exampleEnv [''0xabcd'']) ''Ethereum'' exampleRow 5000
                     exampleWorld"]
  by (simp add: example_defs uniqueIndex_def rowKey_def toLowerCase_example)

subsection \<open>What the policy gate receives\<close>

lemma toLowerCaseChar_not_upper: "\<not> isUpperCase (toLowerCaseChar c)"
  by (auto simp: toLowerCaseChar_def isUpperCase_def)

lemma toLowerCase_not_upper: "\<not> list_ex isUpperCase (toLowerCase str)"
  by (simp add: toLowerCase_def list_ex_iff toLowerCaseChar_not_upper)

lemma updateShieldStatus_calls:
  "calls (snd (updateShieldStatus env net row st s)) = calls s @ [UpdateShieldStatus net row st]"
  by (simp add: updateShieldStatus_def logCall_def Let_def split: option.splits)

lemma updateShieldStatus_callsD:
  "updateShieldStatus env net row st s = (res, s') \<Longrightarrow>
     calls s' = calls s @ [UpdateShieldStatus net row st]"
  using updateShieldStatus_calls [of env net row st s] by simp

lemma addBlockedShield_calls:
  "calls (snd (addBlockedShield env net row reason s)) = calls s @ [AddBlockedShield net row reason]"
  by (simp add: addBlockedShield_def logCall_def Let_def split: option.splits)

lemma addBlockedShield_callsD:
  "addBlockedShield env net row reason s = (res, s') \<Longrightarrow>
     calls s' = calls s @ [AddBlockedShield net row reason]"
  using addBlockedShield_calls [of env net row reason s] by simp

lemma getPendingShields_calls:
  "calls (snd (getPendingShields env net e l s)) = calls s @ [GetPendingShields net e l]"
  by (simp add: getPendingShields_def logCall_def Let_def split: option.splits)

lemma getPendingShields_callsD:
  "getPendingShields env net e l s = (res, s') \<Longrightarrow>
     calls s' = calls s @ [GetPendingShields net e l]"
  using getPendingShields_calls [of env net e l s] by simp

text \<open>
  Every call of the policy gate made while validating a row carries the lowercased
  \<open>from\<close> address of the receipt found for the call's transaction.
\<close>

lemma validateShield_gate_calls:
  "\<exists>cs. calls (validateShield env net row e s) = calls s @ cs
        \<and> (\<forall>n t a ts. ShouldAllowShield n t a ts \<in> set cs \<longrightarrow>
               (\<exists>r. txReceiptResponse env n t = Inr r \<and> a = toLowerCase (receipt_from r)))"
  by (auto simp: validateShield_def validateShieldTry_def rpc_defs Let_def
       queueUnsignedPOIShieldEvent_def
       split: sum.splits prod.splits
       dest!: addBlockedShield_callsD updateShieldStatus_callsD)

lemma validateShields_gate_calls:
  "\<exists>cs. calls (fold (\<lambda>row. validateShield env net row e) rows s) = calls s @ cs
        \<and> (\<forall>n t a ts. ShouldAllowShield n t a ts \<in> set cs \<longrightarrow>
               (\<exists>r. txReceiptResponse env n t = Inr r \<and> a = toLowerCase (receipt_from r)))"
proof (induction rows arbitrary: s)
  case Nil
  show ?case by simp
next
  case (Cons row rows)
  obtain cs1 where 1: "calls (validateShield env net row e s) = calls s @ cs1"
    and g1: "\<forall>n t a ts. ShouldAllowShield n t a ts \<in> set cs1 \<longrightarrow>
               (\<exists>r. txReceiptResponse env n t = Inr r \<and> a = toLowerCase (receipt_from r))"
    using validateShield_gate_calls by blast
  obtain cs2 where 2: "calls (fold (\<lambda>row. validateShield env net row e) rows
                                (validateShield env net row e s))
                       = calls (validateShield env net row e s) @ cs2"
    and g2: "\<forall>n t a ts. ShouldAllowShield n t a ts \<in> set cs2 \<longrightarrow>
               (\<exists>r. txReceiptResponse env n t = Inr r \<and> a = toLowerCase (receipt_from r))"
    using Cons.IH by blast
  have "calls (fold (\<lambda>row. validateShield env net row e) (row # rows) s) = calls s @ (cs1 @ cs2)"
    using 1 2 by simp
  moreover have "\<forall>n t a ts. ShouldAllowShield n t a ts \<in> set (cs1 @ cs2) \<longrightarrow>
               (\<exists>r. txReceiptResponse env n t = Inr r \<and> a = toLowerCase (receipt_from r))"
    using g1 g2 unfolding set_append Un_iff by blast
  ultimately show ?case by blast
qed

lemma validateNextQueuedShieldBatch_gate_calls:
  "\<exists>cs. calls (validateNextQueuedShieldBatch env net s) = calls s @ cs
        \<and> (\<forall>n t a ts. ShouldAllowShield n t a ts \<in> set cs \<longrightarrow>
               (\<exists>r. txReceiptResponse env n t = Inr r \<and> a = toLowerCase (receipt_from r)))"
proof (cases "getPendingShields env net (getMaxTimestampForValidation env) 100 s")
  case (Pair res s1)
  note c1 = getPendingShields_callsD [OF Pair]
  show ?thesis
  proof (cases res)
    case (Inl err)
    with Pair c1 show ?thesis
      by (simp add: validateNextQueuedShieldBatch_def)
  next
    case (Inr rows)
    obtain cs where 2: "calls (fold (\<lambda>row. validateShield env net row
                                 (getMaxTimestampForValidation env)) rows s1) = calls s1 @ cs"
      and g: "\<forall>n t a ts. ShouldAllowShield n t a ts \<in> set cs \<longrightarrow>
               (\<exists>r. txReceiptResponse env n t = Inr r \<and> a = toLowerCase (receipt_from r))"
      using validateShields_gate_calls by blast
    show ?thesis
    proof (cases "rows = []")
      case True
      with Pair Inr c1 show ?thesis by (simp add: validateNextQueuedShieldBatch_def)
    next
      case False
      with Pair Inr c1 2
      have "calls (validateNextQueuedShieldBatch env net s)
              = calls s @ (GetPendingShields net (getMaxTimestampForValidation env) 100 # cs)"
        by (simp add: validateNextQueuedShieldBatch_def)
      moreover from g have "\<forall>n t a ts. ShouldAllowShield n t a ts
               \<in> set (GetPendingShields net (getMaxTimestampForValidation env) 100 # cs) \<longrightarrow>
               (\<exists>r. txReceiptResponse env n t = Inr r \<and> a = toLowerCase (receipt_from r))"
        unfolding set_simps insert_iff by blast
      ultimately show ?thesis by blast
    qed
  qed
qed

lemma validateAllNetworks_gate_calls:
  "\<exists>cs. calls (fold (validateNextQueuedShieldBatch env) nets s) = calls s @ cs
        \<and> (\<forall>n t a ts. ShouldAllowShield n t a ts \<in> set cs \<longrightarrow>
               (\<exists>r. txReceiptResponse env n t = Inr r \<and> a = toLowerCase (receipt_from r)))"
proof (induction nets arbitrary: s)
  case Nil
  show ?case by simp
next
  case (Cons net nets)
  obtain cs1 where 1: "calls (validateNextQueuedShieldBatch env net s) = calls s @ cs1"
    and g1: "\<forall>n t a ts. ShouldAllowShield n t a ts \<in> set cs1 \<longrightarrow>
               (\<exists>r. txReceiptResponse env n t = Inr r \<and> a = toLowerCase (receipt_from r))"
    using validateNextQueuedShieldBatch_gate_calls by blast
  obtain cs2 where 2: "calls (fold (validateNextQueuedShieldBatch env) nets
                                (validateNextQueuedShieldBatch env net s))
                       = calls (validateNextQueuedShieldBatch env net s) @ cs2"
    and g2: "\<forall>n t a ts. ShouldAllowShield n t a ts \<in> set cs2 \<longrightarrow>
               (\<exists>r. txReceiptResponse env n t = Inr r \<and> a = toLowerCase (receipt_from r))"
    using Cons.IH by blast
  have "calls (fold (validateNextQueuedShieldBatch env) (net # nets) s) = calls s @ (cs1 @ cs2)"
    using 1 2 by simp
  moreover have "\<forall>n t a ts. ShouldAllowShield n t a ts \<in> set (cs1 @ cs2) \<longrightarrow>
               (\<exists>r. txReceiptResponse env n t = Inr r \<and> a = toLowerCase (receipt_from r))"
    using g1 g2 unfolding set_append Un_iff by blast
  ultimately show ?case by blast
qed

lemma runValidateQueuedShieldsPoller_Suc_snd:
  "snd (runValidateQueuedShieldsPoller (Suc k) envs config s) =
     snd (runValidateQueuedShieldsPoller k (\<lambda>i. envs (Suc i)) config
            (fold (validateNextQueuedShieldBatch (envs 0)) (NETWORK_NAMES (envs 0)) s))"
  by (simp add: Let_def split: prod.splits)

lemma runValidateQueuedShieldsPoller_gate_calls:
  "\<exists>cs. calls (snd (runValidateQueuedShieldsPoller k envs config s)) = calls s @ cs
        \<and> (\<forall>n t a ts. ShouldAllowShield n t a ts \<in> set cs \<longrightarrow>
               (\<exists>i r. i < k \<and> txReceiptResponse (envs i) n t = Inr r
                      \<and> a = toLowerCase (receipt_from r)))"
proof (induction k arbitrary: envs s)
  case 0
  show ?case by simp
next
  case (Suc k)
  define s1 where "s1 = fold (validateNextQueuedShieldBatch (envs 0)) (NETWORK_NAMES (envs 0)) s"
  obtain cs1 where 1: "calls s1 = calls s @ cs1"
    and g1: "\<forall>n t a ts. ShouldAllowShield n t a ts \<in> set cs1 \<longrightarrow>
               (\<exists>r. txReceiptResponse (envs 0) n t = Inr r \<and> a = toLowerCase (receipt_from r))"
    unfolding s1_def using validateAllNetworks_gate_calls by blast
  obtain cs2 where 2: "calls (snd (runValidateQueuedShieldsPoller k (\<lambda>i. envs (Suc i)) config s1))
                       = calls s1 @ cs2"
    and g2: "\<forall>n t a ts. ShouldAllowShield n t a ts \<in> set cs2 \<longrightarrow>
               (\<exists>i r. i < k \<and> txReceiptResponse (envs (Suc i)) n t = Inr r
                      \<and> a = toLowerCase (receipt_from r))"
    using Suc.IH [of "\<lambda>i. envs (Suc i)" s1] by blast
  have "calls (snd (runValidateQueuedShieldsPoller (Suc k) envs config s)) = calls s @ (cs1 @ cs2)"
    using 1 2 unfolding runValidateQueuedShieldsPoller_Suc_snd s1_def by simp
  moreover have "\<forall>n t a ts. ShouldAllowShield n t a ts \<in> set (cs1 @ cs2) \<longrightarrow>
               (\<exists>i r. i < Suc k \<and> txReceiptResponse (envs i) n t = Inr r
                      \<and> a = toLowerCase (receipt_from r))"
  proof (intro allI impI)
    fix n t a ts
    assume "ShouldAllowShield n t a ts \<in> set (cs1 @ cs2)"
    then consider "ShouldAllowShield n t a ts \<in> set cs1" | "ShouldAllowShield n t a ts \<in> set cs2"
      by auto
    then show "\<exists>i r. i < Suc k \<and> txReceiptResponse (envs i) n t = Inr r
                      \<and> a = toLowerCase (receipt_from r)"
    proof cases
      case 1
      with g1 show ?thesis by blast
    next
      case 2
      with g2 obtain i r where "i < k" "txReceiptResponse (envs (Suc i)) n t = Inr r"
        "a = toLowerCase (receipt_from r)" by blast
      then show ?thesis by (intro exI [of _ "Suc i"] exI [of _ r]) simp
    qed
  qed
  ultimately show ?case by blast
qed

text \<open>
  C9. Whenever the validate-shields poller, run for any number of iterations from any
  state, calls the policy gate, the address it passes is the lowercased \<open>from\<close> address
  of the receipt of the call's transaction (as found in that iteration), and it contains
  no uppercase letter.
\<close>

theorem policy_gate_receives_lowercase_address:
  assumes "ShouldAllowShield n t a ts
             \<in> set (calls (snd (runValidateQueuedShieldsPoller k envs config s)))"
    and "ShouldAllowShield n t a ts \<notin> set (calls s)"
  shows "(\<exists>i r. i < k \<and> txReceiptResponse (envs i) n t = Inr r
                \<and> a = toLowerCase (receipt_from r))
         \<and> \<not> list_ex isUpperCase a"
proof -
  obtain cs where "calls (snd (runValidateQueuedShieldsPoller k envs config s)) = calls s @ cs"
    and g: "\<forall>n t a ts. ShouldAllowShield n t a ts \<in> set cs \<longrightarrow>
               (\<exists>i r. i < k \<and> txReceiptResponse (envs i) n t = Inr r
                      \<and> a = toLowerCase (receipt_from r))"
    using runValidateQueuedShieldsPoller_gate_calls by blast
  with assms have "ShouldAllowShield n t a ts \<in> set cs" by auto
  with g have *: "\<exists>i r. i < k \<and> txReceiptResponse (envs i) n t = Inr r
                      \<and> a = toLowerCase (receipt_from r)" by blast
  then have "\<not> list_ex isUpperCase a" using toLowerCase_not_upper by blast
  with * show ?thesis by blast
qed

lemmas provider_defs = validateNextQueuedShieldBatch_def getPendingShields_def
  pendingShieldsQuery_def getMaxTimestampForValidation_def hoursAgo_def validateShield_def
  validateShieldTry_def queueUnsignedPOIShieldEvent_def updateShieldStatus_def
  addBlockedShield_def setStatus_def hasKey_def queueNewShields_def queueShieldSafe_def
  insertPendingShield_def getStatus_def saveStatus_def Let_def

theorem policy_gate_receives_lowercase_address_witness:
  "ShouldAllowShield ''Ethereum'' ''0x1234'' ''0xabcd'' 1000
     \<in> set (calls (snd (runValidateQueuedShieldsPoller (Suc 0) (\<lambda>i. exampleEnv [])
                          \<lparr>name = ''list'', description = '''',
                           queueShieldsOverrideDelayMsec = None,
                           validateShieldsOverrideDelayMsec = None\<rparr> exampleWorld)))
   \<and> (\<exists>i r. i < Suc 0 \<and> txReceiptResponse (exampleEnv []) ''Ethereum'' ''0x1234'' = Inr r
             \<and> ''0xabcd'' = toLowerCase (receipt_from r))
   \<and> \<not> list_ex isUpperCase ''0xabcd''"
proof -
  have called: "ShouldAllowShield ''Ethereum'' ''0x1234'' ''0xabcd'' 1000
     \<in> set (calls (snd (runValidateQueuedShieldsPoller (Suc 0) (\<lambda>i. exampleEnv [])
                          \<lparr>name = ''list'', description = '''',
                           queueShieldsOverrideDelayMsec = None,
                           validateShieldsOverrideDelayMsec = None\<rparr> exampleWorld)))"
    by (simp add: provider_defs rpc_defs example_defs toLowerCase_example)
  have fresh: "ShouldAllowShield ''Ethereum'' ''0x1234'' ''0xabcd'' 1000 \<notin> set (calls exampleWorld)"
    by (simp add: example_defs)
  from policy_gate_receives_lowercase_address [OF called fresh] called
  show ?thesis by simp
qed

subsection \<open>The queue-shields pass\<close>

lemma insertPendingShield_calls:
  "calls (snd (insertPendingShield env net sd s)) = calls s @ [InsertPendingShield net sd]"
  by (simp add: insertPendingShield_def logCall_def Let_def split: option.splits)

lemma insertPendingShield_statusDB:
  "statusDB (snd (insertPendingShield env net sd s)) = statusDB s"
  by (simp add: insertPendingShield_def logCall_def Let_def split: option.splits)

lemma queueShieldSafe_snd:
  "queueShieldSafe env net sd s = snd (insertPendingShield env net sd s)"
  by (simp add: queueShieldSafe_def split: prod.splits sum.splits)

lemma fold_queueShieldSafe_calls:
  "calls (fold (queueShieldSafe env net) xs s) = calls s @ map (InsertPendingShield net) xs"
  by (induction xs arbitrary: s) (simp_all add: queueShieldSafe_snd insertPendingShield_calls)

lemma fold_queueShieldSafe_statusDB:
  "statusDB (fold (queueShieldSafe env net) xs s) = statusDB s"
  by (induction xs arbitrary: s) (simp_all add: queueShieldSafe_snd insertPendingShield_statusDB)

lemma saveStatus_calls:
  "calls (snd (saveStatus env net b s)) = calls s @ [SaveStatus net b]"
  by (simp add: saveStatus_def logCall_def Let_def split: option.splits)

lemma saveStatus_statusDB:
  "statusDB (snd (saveStatus env net b s)) =
     (if datastoreFault env (SaveStatus net b) = None
         \<and> (\<forall>c. statusDB s net = Some c \<longrightarrow> c \<le> b)
      then (statusDB s)(net := Some b) else statusDB s)"
  by (auto simp: saveStatus_def logCall_def Let_def split: option.splits)

text \<open>The pass up to the write of the status, once the status and the shields are read.\<close>

lemma queueNewShields_unfold:
  assumes "datastoreFault env (GetStatus net) = None"
    and "startingBlock = (case statusDB s net of Some b \<Rightarrow> b | None \<Rightarrow> deploymentBlock env net)"
    and "walletResponse env net startingBlock = Inr newShields"
  shows "queueNewShields env net s =
     (let s3 = fold (queueShieldSafe env net) newShields
                 (s\<lparr>calls := calls s @ [GetStatus net, GetNewShieldsFromWallet net startingBlock]\<rparr>)
      in if newShields = [] then (Inr (), s3)
         else saveStatus env net (sd_blockNumber (last newShields)) s3)"
  using assms by (simp add: queueNewShields_def getStatus_def rpc_defs Let_def)

text \<open>
  C7. When the status is read and the chain observer answers, the pass asks the observer
  for the shields from the stored \<open>latestBlockScanned\<close>, or from the network's
  \<open>deploymentBlock\<close> when nothing is stored; it writes the status exactly when the
  observer returned at least one shield, and the value written is the \<open>blockNumber\<close> of
  the last shield returned. The trace of the pass is: read the status, ask the
  observer, insert every shield, and (for a non-empty answer only) save the status. The
  Status Store keeps the value unless it refuses the write (a fault, or a value below
  the current one).
\<close>

theorem queueNewShields_starting_block_and_status:
  assumes status: "datastoreFault env (GetStatus net) = None"
    and start: "startingBlock =
                  (case statusDB s net of Some b \<Rightarrow> b | None \<Rightarrow> deploymentBlock env net)"
    and wallet: "walletResponse env net startingBlock = Inr newShields"
    and s': "s' = snd (queueNewShields env net s)"
  shows "calls s' = calls s @ [GetStatus net, GetNewShieldsFromWallet net startingBlock]
                      @ map (InsertPendingShield net) newShields
                      @ (if newShields = [] then []
                         else [SaveStatus net (sd_blockNumber (last newShields))])
       \<and> (newShields = [] \<longrightarrow> statusDB s' = statusDB s)
       \<and> (newShields \<noteq> [] \<longrightarrow>
            statusDB s' =
              (if datastoreFault env (SaveStatus net (sd_blockNumber (last newShields))) = None
                  \<and> (\<forall>c. statusDB s net = Some c \<longrightarrow> c \<le> sd_blockNumber (last newShields))
               then (statusDB s)(net := Some (sd_blockNumber (last newShields)))
               else statusDB s))"
proof (cases "newShields = []")
  case True
  with queueNewShields_unfold [OF status start wallet] show ?thesis
    by (simp add: s')
next
  case False
  with queueNewShields_unfold [OF status start wallet]
  have run: "s' = snd (saveStatus env net (sd_blockNumber (last newShields))
                    (fold (queueShieldSafe env net) newShields
                       (s\<lparr>calls := calls s @ [GetStatus net,
                                                GetNewShieldsFromWallet net startingBlock]\<rparr>)))"
    by (simp add: s' Let_def)
  have "calls s' = calls s @ [GetStatus net, GetNewShieldsFromWallet net startingBlock]
                      @ map (InsertPendingShield net) newShields
                      @ [SaveStatus net (sd_blockNumber (last newShields))]"
    unfolding run by (simp add: saveStatus_calls fold_queueShieldSafe_calls)
  moreover have "statusDB s' =
              (if datastoreFault env (SaveStatus net (sd_blockNumber (last newShields))) = None
                  \<and> (\<forall>c. statusDB s net = Some c \<longrightarrow> c \<le> sd_blockNumber (last newShields))
               then (statusDB s)(net := Some (sd_blockNumber (last newShields)))
               else statusDB s)"
    unfolding run by (auto simp: saveStatus_statusDB fold_queueShieldSafe_statusDB)
  ultimately show ?thesis using False by simp
qed

theorem queueNewShields_starting_block_and_status_witness:
  "calls (snd (queueNewShields (exampleEnv []) ''Ethereum'' emptyWorld)) =
     [GetStatus ''Ethereum'', GetNewShieldsFromWallet ''Ethereum'' 3,
      InsertPendingShield ''Ethereum'' exampleShield, SaveStatus ''Ethereum'' 7]
   \<and> statusDB (snd (queueNewShields (exampleEnv []) ''Ethereum'' emptyWorld)) ''Ethereum''
       = Some 7
   \<and> calls (snd (queueNewShields ((exampleEnv [])\<lparr>walletResponse := (\<lambda>n b. Inr [])\<rparr>)
                   ''Ethereum'' (emptyWorld\<lparr>statusDB := (\<lambda>n. Some 5)\<rparr>))) =
     [GetStatus ''Ethereum'', GetNewShieldsFromWallet ''Ethereum'' 5]
   \<and> statusDB (snd (queueNewShields ((exampleEnv [])\<lparr>walletResponse := (\<lambda>n b. Inr [])\<rparr>)
                   ''Ethereum'' (emptyWorld\<lparr>statusDB := (\<lambda>n. Some 5)\<rparr>))) ''Ethereum''
       = Some 5"
proof -
  have a1: "datastoreFault (exampleEnv []) (GetStatus ''Ethereum'') = None"
    by (simp add: exampleEnv_def)
  have a2: "(3::int) = (case statusDB emptyWorld ''Ethereum'' of Some b \<Rightarrow> b
                        | None \<Rightarrow> deploymentBlock (exampleEnv []) ''Ethereum'')"
    by (simp add: exampleEnv_def emptyWorld_def)
  have a3: "walletResponse (exampleEnv []) ''Ethereum'' 3 = Inr [exampleShield]"
    by (simp add: exampleEnv_def)
  have b1: "datastoreFault ((exampleEnv [])\<lparr>walletResponse := (\<lambda>n b. Inr [])\<rparr>)
              (GetStatus ''Ethereum'') = None"
    by (simp add: exampleEnv_def)
  have b2: "(5::int) = (case statusDB (emptyWorld\<lparr>statusDB := (\<lambda>n. Some 5)\<rparr>) ''Ethereum'' of
                          Some b \<Rightarrow> b
                        | None \<Rightarrow> deploymentBlock
                             ((exampleEnv [])\<lparr>walletResponse := (\<lambda>n b. Inr [])\<rparr>) ''Ethereum'')"
    by simp
  have b3: "walletResponse ((exampleEnv [])\<lparr>walletResponse := (\<lambda>n b. Inr [])\<rparr>)
              ''Ethereum'' 5 = Inr []"
    by simp
  have f: "datastoreFault (exampleEnv []) (SaveStatus ''Ethereum'' 7) = None"
    by (simp add: exampleEnv_def)
  note A = queueNewShields_starting_block_and_status [OF a1 a2 a3 refl]
  note B = queueNewShields_starting_block_and_status [OF b1 b2 b3 refl]
  have A1: "calls (snd (queueNewShields (exampleEnv []) ''Ethereum'' emptyWorld)) =
     [GetStatus ''Ethereum'', GetNewShieldsFromWallet ''Ethereum'' 3,
      InsertPendingShield ''Ethereum'' exampleShield, SaveStatus ''Ethereum'' 7]"
    using A by (simp add: emptyWorld_def exampleShield_def)
  have A2: "statusDB (snd (queueNewShields (exampleEnv []) ''Ethereum'' emptyWorld)) ''Ethereum''
       = Some 7"
    using A f by (simp add: emptyWorld_def exampleShield_def)
  have B1: "calls (snd (queueNewShields ((exampleEnv [])\<lparr>walletResponse := (\<lambda>n b. Inr [])\<rparr>)
                   ''Ethereum'' (emptyWorld\<lparr>statusDB := (\<lambda>n. Some 5)\<rparr>))) =
     [GetStatus ''Ethereum'', GetNewShieldsFromWallet ''Ethereum'' 5]"
    using B by (simp add: emptyWorld_def)
  have B2: "statusDB (snd (queueNewShields ((exampleEnv [])\<lparr>walletResponse := (\<lambda>n b. Inr [])\<rparr>)
                   ''Ethereum'' (emptyWorld\<lparr>statusDB := (\<lambda>n. Some 5)\<rparr>))) ''Ethereum''
       = Some 5"
    using B by simp
  from A1 A2 B1 B2 show ?thesis by simp
qed

subsection \<open>The trace of a validation\<close>

text \<open>
  The calls \<open>validateShield\<close> makes for one row: the receipt lookup first, then only
  calls that concern this row.
\<close>

lemma validateShield_calls:
  "\<exists>cs. calls (validateShield env net row e s)
           = calls s @ GetTransactionReceipt net (txid row) # cs
        \<and> (\<forall>c\<in>set cs.
              (\<exists>r. c = GetTimestampFromTransactionReceipt net r)
              \<or> (\<exists>a ts. c = ShouldAllowShield net (txid row) a ts)
              \<or> (\<exists>ev. c = QueueUnsignedPOIShieldEvent net ev)
              \<or> (\<exists>reason. c = AddBlockedShield net row reason)
              \<or> (\<exists>st. c = UpdateShieldStatus net row st))"
  by (auto simp: validateShield_def validateShieldTry_def rpc_defs Let_def
       queueUnsignedPOIShieldEvent_def
       split: sum.splits prod.splits
       dest!: addBlockedShield_callsD updateShieldStatus_callsD)

lemma validateShields_calls:
  "\<exists>cs. calls (fold (\<lambda>row. validateShield env net row e) rows s) = calls s @ cs
        \<and> (\<forall>n e' l. GetPendingShields n e' l \<notin> set cs)
        \<and> (\<forall>row\<in>set rows. GetTransactionReceipt net (txid row) \<in> set cs)"
proof (induction rows arbitrary: s)
  case Nil
  show ?case by simp
next
  case (Cons row rows)
  obtain cs1 where 1: "calls (validateShield env net row e s)
                         = calls s @ GetTransactionReceipt net (txid row) # cs1"
    and k1: "\<forall>c\<in>set cs1.
              (\<exists>r. c = GetTimestampFromTransactionReceipt net r)
              \<or> (\<exists>a ts. c = ShouldAllowShield net (txid row) a ts)
              \<or> (\<exists>ev. c = QueueUnsignedPOIShieldEvent net ev)
              \<or> (\<exists>reason. c = AddBlockedShield net row reason)
              \<or> (\<exists>st. c = UpdateShieldStatus net row st)"
    using validateShield_calls by blast
  obtain cs2 where 2: "calls (fold (\<lambda>row. validateShield env net row e) rows
                                (validateShield env net row e s))
                       = calls (validateShield env net row e s) @ cs2"
    and n2: "\<forall>n e' l. GetPendingShields n e' l \<notin> set cs2"
    and r2: "\<forall>row\<in>set rows. GetTransactionReceipt net (txid row) \<in> set cs2"
    using Cons.IH by blast
  let ?cs = "GetTransactionReceipt net (txid row) # cs1 @ cs2"
  have "calls (fold (\<lambda>row. validateShield env net row e) (row # rows) s) = calls s @ ?cs"
    using 1 2 by simp
  moreover have "\<forall>n e' l. GetPendingShields n e' l \<notin> set ?cs"
    using k1 n2 by auto
  moreover have "\<forall>row'\<in>set (row # rows). GetTransactionReceipt net (txid row') \<in> set ?cs"
    using r2 by auto
  ultimately show ?case by blast
qed

subsection \<open>The query for pending shields\<close>

lemma pendingShieldsQuery_set:
  "set (pendingShieldsQuery e l rows)
     \<subseteq> {r \<in> set rows. status r = Pending \<and> timestamp r \<le> e}"
proof -
  have "set (pendingShieldsQuery e l rows)
          \<subseteq> set (sort_key timestamp (filter (\<lambda>r. status r = Pending \<and> timestamp r \<le> e) rows))"
    unfolding pendingShieldsQuery_def by (rule set_take_subset)
  then show ?thesis by auto
qed

lemma pendingShieldsQuery_sorted: "sorted (map timestamp (pendingShieldsQuery e l rows))"
  unfolding pendingShieldsQuery_def take_map [symmetric]
  by (intro sorted_wrt_take) (rule sorted_sort_key)

lemma pendingShieldsQuery_length: "length (pendingShieldsQuery e l rows) \<le> l"
  by (simp add: pendingShieldsQuery_def)

text \<open>
  C5. Unless the data store fails, \<open>getPendingShields\<close> returns rows of the queue
  that all have status \<open>Pending\<close> and \<open>timestamp \<le> endTimestamp\<close>, at most \<open>limit\<close> of
  them, in ascending order of timestamp, and none from an empty queue. A validation
  batch calls it once, first of all, with the validation cutoff and the limit 100, and
  validates the rows it returns.
\<close>

theorem getPendingShields_pending_aged_limited_sorted:
  "(datastoreFault env (GetPendingShields net endTimestamp limit) = None \<longrightarrow>
      (\<exists>rows. fst (getPendingShields env net endTimestamp limit s) = Inr rows
         \<and> set rows \<subseteq> set (shieldQueueDB s net)
         \<and> (\<forall>r\<in>set rows. status r = Pending \<and> timestamp r \<le> endTimestamp)
         \<and> length rows \<le> limit
         \<and> sorted (map timestamp rows)
         \<and> (shieldQueueDB s net = [] \<longrightarrow> rows = [])))
   \<and> (\<exists>cs. calls (validateNextQueuedShieldBatch env net s)
              = calls s @ GetPendingShields net (getMaxTimestampForValidation env) 100 # cs
          \<and> (\<forall>n e l. GetPendingShields n e l \<notin> set cs))
   \<and> validateNextQueuedShieldBatch env net s =
       (case getPendingShields env net (getMaxTimestampForValidation env) 100 s of
          (Inl err, s1) \<Rightarrow> s1
        | (Inr rows, s1) \<Rightarrow>
            fold (\<lambda>row. validateShield env net row (getMaxTimestampForValidation env)) rows s1)"
proof (intro conjI impI)
  assume ok: "datastoreFault env (GetPendingShields net endTimestamp limit) = None"
  let ?rows = "pendingShieldsQuery endTimestamp limit (shieldQueueDB s net)"
  have "fst (getPendingShields env net endTimestamp limit s) = Inr ?rows"
    using ok by (simp add: getPendingShields_def logCall_def)
  moreover have "set ?rows \<subseteq> set (shieldQueueDB s net)"
    using pendingShieldsQuery_set by blast
  moreover have "\<forall>r\<in>set ?rows. status r = Pending \<and> timestamp r \<le> endTimestamp"
    using pendingShieldsQuery_set by blast
  moreover have "shieldQueueDB s net = [] \<longrightarrow> ?rows = []"
    by (simp add: pendingShieldsQuery_def)
  ultimately show "\<exists>rows. fst (getPendingShields env net endTimestamp limit s) = Inr rows
         \<and> set rows \<subseteq> set (shieldQueueDB s net)
         \<and> (\<forall>r\<in>set rows. status r = Pending \<and> timestamp r \<le> endTimestamp)
         \<and> length rows \<le> limit
         \<and> sorted (map timestamp rows)
         \<and> (shieldQueueDB s net = [] \<longrightarrow> rows = [])"
    using pendingShieldsQuery_length pendingShieldsQuery_sorted by blast
next
  show batch: "validateNextQueuedShieldBatch env net s =
       (case getPendingShields env net (getMaxTimestampForValidation env) 100 s of
          (Inl err, s1) \<Rightarrow> s1
        | (Inr rows, s1) \<Rightarrow>
            fold (\<lambda>row. validateShield env net row (getMaxTimestampForValidation env)) rows s1)"
    by (auto simp: validateNextQueuedShieldBatch_def split: prod.splits sum.splits)
  show "\<exists>cs. calls (validateNextQueuedShieldBatch env net s)
              = calls s @ GetPendingShields net (getMaxTimestampForValidation env) 100 # cs
          \<and> (\<forall>n e l. GetPendingShields n e l \<notin> set cs)"
  proof (cases "getPendingShields env net (getMaxTimestampForValidation env) 100 s")
    case (Pair res s1)
    note c1 = getPendingShields_callsD [OF Pair]
    show ?thesis
    proof (cases res)
      case (Inl err)
      with Pair c1 show ?thesis by (simp add: batch)
    next
      case (Inr rows)
      obtain cs where "calls (fold (\<lambda>row. validateShield env net row
                                 (getMaxTimestampForValidation env)) rows s1) = calls s1 @ cs"
        and "\<forall>n e l. GetPendingShields n e l \<notin> set cs"
        using validateShields_calls by blast
      with Pair Inr c1 show ?thesis by (simp add: batch)
    qed
  qed
qed
text \<open>
  The scenario of the store's test: two shields are inserted, one mined now and one ten
  days ago; the query with a cutoff of seven days ago returns the older one only, with
  status \<open>Pending\<close> and \<open>lastValidatedTimestamp = null\<close>.
\<close>

theorem getPendingShields_pending_aged_limited_sorted_witness:
  "fst (getPendingShields (exampleEnv []) ''Ethereum'' 1000000000 100 emptyWorld) = Inr []
   \<and> fst (getPendingShields (exampleEnv []) ''Ethereum'' (1000000000 - 7 * 24 * 60 * 60 * 1000) 100
        (snd (insertPendingShield (exampleEnv []) ''Ethereum''
                \<lparr>sd_txid = ''0x9876'', sd_hash = ''0x5432'', sd_blindedCommitment = ''0x01'',
                 sd_timestamp = 1000000000 - 10 * 24 * 60 * 60 * 1000, sd_blockNumber = 1\<rparr>
           (snd (insertPendingShield (exampleEnv []) ''Ethereum''
                \<lparr>sd_txid = ''0x1234'', sd_hash = ''0x5678'', sd_blindedCommitment = ''0x02'',
                 sd_timestamp = 1000000000, sd_blockNumber = 2\<rparr> emptyWorld)))))
       = Inr [\<lparr>txid = ''0x9876'', commitmentHash = ''0x5432'', blindedCommitment = ''0x01'',
               timestamp = 136000000, blockNumber = 1, status = Pending,
               lastValidatedTimestamp = None\<rparr>]
   \<and> (\<exists>rows. fst (getPendingShields (exampleEnv []) ''Ethereum'' 1000000000 100 emptyWorld)
                = Inr rows
         \<and> length rows \<le> 100 \<and> sorted (map timestamp rows))"
proof -
  have ok: "datastoreFault (exampleEnv []) (GetPendingShields ''Ethereum'' 1000000000 100) = None"
    by (simp add: exampleEnv_def)
  from getPendingShields_pending_aged_limited_sorted
         [of "exampleEnv []" "''Ethereum''" 1000000000 100 emptyWorld] ok
  have "\<exists>rows. fst (getPendingShields (exampleEnv []) ''Ethereum'' 1000000000 100 emptyWorld)
                = Inr rows
         \<and> length rows \<le> 100 \<and> sorted (map timestamp rows)"
    by blast
  moreover
  have "fst (getPendingShields (exampleEnv []) ''Ethereum'' 1000000000 100 emptyWorld) = Inr []"
    by (simp add: getPendingShields_def pendingShieldsQuery_def logCall_def exampleEnv_def
          emptyWorld_def)
  moreover
  have "fst (getPendingShields (exampleEnv []) ''Ethereum'' (1000000000 - 7 * 24 * 60 * 60 * 1000) 100
        (snd (insertPendingShield (exampleEnv []) ''Ethereum''
                \<lparr>sd_txid = ''0x9876'', sd_hash = ''0x5432'', sd_blindedCommitment = ''0x01'',
                 sd_timestamp = 1000000000 - 10 * 24 * 60 * 60 * 1000, sd_blockNumber = 1\<rparr>
           (snd (insertPendingShield (exampleEnv []) ''Ethereum''
                \<lparr>sd_txid = ''0x1234'', sd_hash = ''0x5678'', sd_blindedCommitment = ''0x02'',
                 sd_timestamp = 1000000000, sd_blockNumber = 2\<rparr> emptyWorld)))))
       = Inr [\<lparr>txid = ''0x9876'', commitmentHash = ''0x5432'', blindedCommitment = ''0x01'',
               timestamp = 136000000, blockNumber = 1, status = Pending,
               lastValidatedTimestamp = None\<rparr>]"
    by (simp add: getPendingShields_def pendingShieldsQuery_def insertPendingShield_def
          logCall_def hasKey_def pendingRow_def exampleEnv_def emptyWorld_def)
  ultimately show ?thesis by blast
qed

subsection \<open>Requests of a node that is not a list provider\<close>

text \<open>
  C10. On a node that is not configured as a list provider, \<open>removeTransactProof\<close>
  returns at once: no signature is requested and no HTTP request is sent.
  \<open>submitValidatedTxidAndMerkleroot\<close> reads the list public key first and then
  returns: the key lookup is the only call it makes, so again nothing is signed and
  nothing is sent; it returns normally whenever the key lookup does.
\<close>

theorem not_list_provider_signs_and_posts_nothing:
  assumes "\<not> isListProvider renv"
  shows "removeTransactProof renv nodeURL networkName txidVersion listKey blindedCommitmentsOut
           railgunTxidIfHasUnshield tr = (Inr (), tr)
       \<and> snd (submitValidatedTxidAndMerkleroot renv nodeURL networkName txidVersion txidIndex
                merkleroot tr) = tr @ [GetListPublicKey]
       \<and> fst (submitValidatedTxidAndMerkleroot renv nodeURL networkName txidVersion txidIndex
                merkleroot tr) =
           (case listPublicKeyResponse renv of Inl err \<Rightarrow> Inl err | Inr k \<Rightarrow> Inr ())"
  using assms
  by (simp add: removeTransactProof_def submitValidatedTxidAndMerkleroot_def
        getListPublicKey_def Let_def split: sum.splits)

lemma showNat_examples: "showNat 0 = ''0''" "showNat (Suc 0) = ''1''"
  by code_simp+

theorem not_list_provider_signs_and_posts_nothing_witness:
  "removeTransactProof (exampleRequestEnv False) ''http://node'' ''Ethereum'' ''V2'' ''listkey''
       [''0x1234''] ''0x00'' [] = (Inr (), [])
   \<and> submitValidatedTxidAndMerkleroot (exampleRequestEnv False) ''http://node'' ''Ethereum''
       ''V2'' 5 ''0xroot'' [] = (Inr (), [GetListPublicKey])
   \<and> submitValidatedTxidAndMerkleroot (exampleRequestEnv True) ''http://node'' ''Ethereum''
       ''V2'' 5 ''0xroot'' [] =
       (Inr (), [GetListPublicKey, SignValidatedTxidMerkleroot 5 ''0xroot'',
                 AxiosPost ''http://node/submit-validated-txid/0/1''
                   (SubmitValidatedTxidAndMerklerootParams ''V2'' 5 ''0xroot'' ''signature''
                      ''listkey'')])"
proof -
  have no: "\<not> isListProvider (exampleRequestEnv False)"
    by (simp add: exampleRequestEnv_def)
  have key: "listPublicKeyResponse (exampleRequestEnv False) = Inr ''listkey''"
    by (simp add: exampleRequestEnv_def)
  note off = not_list_provider_signs_and_posts_nothing [OF no,
      of "''http://node''" "''Ethereum''" "''V2''" "''listkey''" "[''0x1234'']" "''0x00''" "[]"
         5 "''0xroot''"]
  have "submitValidatedTxidAndMerkleroot (exampleRequestEnv False) ''http://node'' ''Ethereum''
       ''V2'' 5 ''0xroot'' [] = (Inr (), [GetListPublicKey])"
    using off key by (simp add: prod_eq_iff)
  moreover
  have "submitValidatedTxidAndMerkleroot (exampleRequestEnv True) ''http://node'' ''Ethereum''
       ''V2'' 5 ''0xroot'' [] =
       (Inr (), [GetListPublicKey, SignValidatedTxidMerkleroot 5 ''0xroot'',
                 AxiosPost ''http://node/submit-validated-txid/0/1''
                   (SubmitValidatedTxidAndMerklerootParams ''V2'' 5 ''0xroot'' ''signature''
                      ''listkey'')])"
    by (simp add: submitValidatedTxidAndMerkleroot_def getListPublicKey_def
          signValidatedTxidMerkleroot_def postRequest_def getNodeRouteURL_def
          exampleRequestEnv_def showNat_examples Let_def)
  ultimately show ?thesis using off by simp
qed

subsection \<open>Isolation of per-shield errors\<close>

text \<open>The queue-shields pass: an insertion never removes a key from the queue.\<close>

lemma insertPendingShield_keeps_key:
  "list_ex (hasKey t h) (shieldQueueDB s net) \<Longrightarrow>
     list_ex (hasKey t h) (shieldQueueDB (snd (insertPendingShield env net' sd s)) net)"
  by (auto simp: insertPendingShield_def logCall_def Let_def list_ex_iff split: option.splits)

lemma insertPendingShield_adds_key:
  "datastoreFault env (InsertPendingShield net sd) = None \<Longrightarrow>
     list_ex (hasKey (sd_txid sd) (sd_hash sd))
       (shieldQueueDB (snd (insertPendingShield env net sd s)) net)"
  by (auto simp: insertPendingShield_def logCall_def Let_def list_ex_iff hasKey_def
        pendingRow_def)

lemma fold_queueShieldSafe_keeps_key:
  "list_ex (hasKey t h) (shieldQueueDB s net) \<Longrightarrow>
     list_ex (hasKey t h) (shieldQueueDB (fold (queueShieldSafe env net') xs s) net)"
  by (induction xs arbitrary: s) (simp_all add: queueShieldSafe_snd insertPendingShield_keeps_key)

lemma fold_queueShieldSafe_adds_key:
  "sd \<in> set xs \<Longrightarrow> datastoreFault env (InsertPendingShield net sd) = None \<Longrightarrow>
     list_ex (hasKey (sd_txid sd) (sd_hash sd))
       (shieldQueueDB (fold (queueShieldSafe env net) xs s) net)"
proof (induction xs arbitrary: s)
  case Nil
  then show ?case by simp
next
  case (Cons x xs)
  show ?case
  proof (cases "sd = x")
    case True
    with Cons.prems(2)
    have "list_ex (hasKey (sd_txid sd) (sd_hash sd))
            (shieldQueueDB (queueShieldSafe env net x s) net)"
      by (simp add: queueShieldSafe_snd insertPendingShield_adds_key)
    then show ?thesis
      by (simp add: fold_queueShieldSafe_keeps_key)
  next
    case False
    with Cons show ?thesis by simp
  qed
qed

lemma saveStatus_shieldQueueDB:
  "shieldQueueDB (snd (saveStatus env net b s)) = shieldQueueDB s"
  by (simp add: saveStatus_def logCall_def Let_def split: option.splits)

lemma saveStatus_fst:
  "datastoreFault env (SaveStatus net b) = None \<Longrightarrow>
   (\<forall>c. statusDB s net = Some c \<longrightarrow> c \<le> b) \<Longrightarrow>
     fst (saveStatus env net b s) = Inr ()"
  by (auto simp: saveStatus_def logCall_def Let_def split: option.splits)

text \<open>The validation pass: what a validation reads from, and writes to, the shield queue.\<close>

lemma list_ex_hasKey_filter:
  "list_ex (\<lambda>r. hasKey t h r \<and> Q r) rows = list_ex Q (filter (hasKey t h) rows)"
  by (auto simp: list_ex_iff)

lemma updateShieldStatus_fst_cong:
  assumes "filter (hasKey (txid x) (commitmentHash x)) (shieldQueueDB s1 net)
         = filter (hasKey (txid x) (commitmentHash x)) (shieldQueueDB s2 net)"
  shows "fst (updateShieldStatus env net x st s1) = fst (updateShieldStatus env net x st s2)"
  using assms
  by (simp add: updateShieldStatus_def logCall_def Let_def list_ex_hasKey_filter
        split: option.splits)

lemma updateShieldStatus_shieldQueueDB:
  "shieldQueueDB (snd (updateShieldStatus env net x st s)) =
     (if fst (updateShieldStatus env net x st s) = Inr ()
      then (shieldQueueDB s)
             (net := map (setStatus (txid x) (commitmentHash x) st) (shieldQueueDB s net))
      else shieldQueueDB s)"
  by (simp add: updateShieldStatus_def logCall_def Let_def split: option.splits)

lemma addBlockedShield_shieldQueueDB:
  "shieldQueueDB (snd (addBlockedShield env net x reason s)) = shieldQueueDB s"
  by (simp add: addBlockedShield_def logCall_def Let_def split: option.splits)

lemma addBlockedShield_fst:
  "fst (addBlockedShield env net x reason s) =
     (case datastoreFault env (AddBlockedShield net x reason) of
        Some err \<Rightarrow> Inl err | None \<Rightarrow> Inr ())"
  by (simp add: addBlockedShield_def logCall_def Let_def split: option.splits)

lemma updateShieldStatus_fst:
  "fst (updateShieldStatus env net x st s) =
     (case datastoreFault env (UpdateShieldStatus net x st) of
        Some err \<Rightarrow> Inl err
      | None \<Rightarrow>
          if list_ex (\<lambda>r. hasKey (txid x) (commitmentHash x) r
                          \<and> status r \<noteq> Pending \<and> status r \<noteq> st) (shieldQueueDB s net)
          then Inl (Error ''shield status must not regress'')
          else Inr ())"
  by (simp add: updateShieldStatus_def logCall_def Let_def split: option.splits)

lemma validateShieldTry_fst:
  "fst (validateShieldTry env net x e s) =
     (case txReceiptResponse env net (txid x) of
        Inl err \<Rightarrow> Inl err
      | Inr r \<Rightarrow>
          (case timestampResponse env net r of
             Inl err \<Rightarrow> Inl err
           | Inr ts \<Rightarrow>
               if ts > e then Inl (Error ''Invalid timestamp'')
               else
                 (case policyResponse env net (txid x) (toLowerCase (receipt_from r)) ts of
                    Inl err \<Rightarrow> Inl err
                  | Inr v \<Rightarrow>
                      if shouldAllow v then fst (updateShieldStatus env net x Allowed s)
                      else
                        (case datastoreFault env (AddBlockedShield net x (blockReason v)) of
                           Some err \<Rightarrow> Inl err
                         | None \<Rightarrow> fst (updateShieldStatus env net x Blocked s)))))"
  by (simp add: validateShieldTry_def rpc_defs Let_def queueUnsignedPOIShieldEvent_def
        case_prod_beta addBlockedShield_fst addBlockedShield_shieldQueueDB
        updateShieldStatus_fst
        split: sum.splits option.splits)

lemma validateShieldTry_shieldQueueDB:
  "shieldQueueDB (snd (validateShieldTry env net x e s)) =
     (case fst (validateShieldTry env net x e s) of
        Inl err \<Rightarrow> shieldQueueDB s
      | Inr u \<Rightarrow> shieldQueueDB (snd (validateShieldTry env net x e s)))
   \<and> (\<exists>st. shieldQueueDB (snd (validateShieldTry env net x e s)) = shieldQueueDB s
           \<or> shieldQueueDB (snd (validateShieldTry env net x e s)) =
                (shieldQueueDB s)
                  (net := map (setStatus (txid x) (commitmentHash x) st) (shieldQueueDB s net)))"
proof -
  have upd: "\<And>st s'. shieldQueueDB s' = shieldQueueDB s \<Longrightarrow>
      shieldQueueDB (snd (updateShieldStatus env net x st s')) =
        (if fst (updateShieldStatus env net x st s') = Inr ()
         then (shieldQueueDB s)
                (net := map (setStatus (txid x) (commitmentHash x) st) (shieldQueueDB s net))
         else shieldQueueDB s)"
    by (simp add: updateShieldStatus_shieldQueueDB)
  show ?thesis
  proof (cases "txReceiptResponse env net (txid x)")
    case (Inl err)
    then show ?thesis by (simp add: validateShieldTry_def rpc_defs)
  next
    case r: (Inr r)
    show ?thesis
    proof (cases "timestampResponse env net r")
      case (Inl err)
      with r show ?thesis by (simp add: validateShieldTry_def rpc_defs)
    next
      case ts: (Inr ts)
      show ?thesis
      proof (cases "ts > e")
        case True
        with r ts show ?thesis by (simp add: validateShieldTry_def rpc_defs)
      next
        case False
        show ?thesis
        proof (cases "policyResponse env net (txid x) (toLowerCase (receipt_from r)) ts")
          case (Inl err)
          with r ts False show ?thesis by (simp add: validateShieldTry_def rpc_defs)
        next
          case v: (Inr v)
          show ?thesis
          proof (cases "shouldAllow v")
            case True
            with r ts False v show ?thesis
              by (auto simp: validateShieldTry_def rpc_defs Let_def
                    queueUnsignedPOIShieldEvent_def upd split: sum.splits)
          next
            case block: False
            with r ts False v show ?thesis
              by (auto simp: validateShieldTry_def rpc_defs Let_def case_prod_beta
                    addBlockedShield_shieldQueueDB upd split: sum.splits)
          qed
        qed
      qed
    qed
  qed
qed

lemma validateShield_snd:
  "validateShield env net x e s = snd (validateShieldTry env net x e s)"
  by (simp add: validateShield_def split: prod.splits sum.splits)

lemma validateShieldTry_fst_cong:
  assumes "filter (hasKey (txid x) (commitmentHash x)) (shieldQueueDB s1 net)
         = filter (hasKey (txid x) (commitmentHash x)) (shieldQueueDB s2 net)"
  shows "fst (validateShieldTry env net x e s1) = fst (validateShieldTry env net x e s2)"
  unfolding validateShieldTry_fst
  by (simp add: updateShieldStatus_fst_cong [OF assms] split: sum.splits option.splits)

lemma filter_hasKey_setStatus:
  "(t, h) \<noteq> (tx, hx) \<Longrightarrow>
     filter (hasKey tx hx) (map (setStatus t h st) rows) = filter (hasKey tx hx) rows"
  by (induction rows) (auto simp: setStatus_def hasKey_def)

text \<open>The validation of a row leaves the rows of every other key as they are.\<close>

lemma validateShield_frame:
  assumes "rowKey y \<noteq> rowKey x"
  shows "filter (hasKey (txid x) (commitmentHash x))
           (shieldQueueDB (validateShield env net y e s) net)
         = filter (hasKey (txid x) (commitmentHash x)) (shieldQueueDB s net)"
proof -
  from assms have ne: "(txid y, commitmentHash y) \<noteq> (txid x, commitmentHash x)"
    by (simp add: rowKey_def)
  from validateShieldTry_shieldQueueDB [of env net y e s]
  obtain st where "shieldQueueDB (validateShield env net y e s) = shieldQueueDB s
      \<or> shieldQueueDB (validateShield env net y e s) =
           (shieldQueueDB s)
             (net := map (setStatus (txid y) (commitmentHash y) st) (shieldQueueDB s net))"
    unfolding validateShield_snd by blast
  then show ?thesis
    using filter_hasKey_setStatus [OF ne] by auto
qed

lemma validateShields_frame:
  assumes "\<forall>y\<in>set rows. rowKey y \<noteq> rowKey x"
  shows "filter (hasKey (txid x) (commitmentHash x))
           (shieldQueueDB (fold (\<lambda>row. validateShield env net row e) rows s) net)
         = filter (hasKey (txid x) (commitmentHash x)) (shieldQueueDB s net)"
  using assms by (induction rows arbitrary: s) (simp_all add: validateShield_frame)

text \<open>
  A row whose validation fails keeps its place in the queue through the whole batch,
  whatever happens to the other rows of the batch.
\<close>

lemma validateShields_failed_row:
  assumes "distinct (map rowKey rows)" and "x \<in> set rows"
    and "fst (validateShieldTry env net x e s) = Inl err"
  shows "filter (hasKey (txid x) (commitmentHash x))
           (shieldQueueDB (fold (\<lambda>row. validateShield env net row e) rows s) net)
         = filter (hasKey (txid x) (commitmentHash x)) (shieldQueueDB s net)"
  using assms
proof (induction rows arbitrary: s)
  case Nil
  then show ?case by simp
next
  case (Cons y rows)
  show ?case
  proof (cases "y = x")
    case True
    from Cons.prems(1) True have "rowKey x \<notin> rowKey ` set rows"
      by simp
    then have others: "\<forall>z\<in>set rows. rowKey z \<noteq> rowKey x"
      by (metis imageI)
    from Cons.prems(3) validateShieldTry_shieldQueueDB [of env net x e s]
    have same: "shieldQueueDB (validateShield env net x e s) = shieldQueueDB s"
      by (simp add: validateShield_snd)
    show ?thesis
      using validateShields_frame [OF others, of env net e "validateShield env net x e s"]
        True same by simp
  next
    case False
    with Cons.prems have x: "x \<in> set rows" and ne: "rowKey y \<noteq> rowKey x"
      by auto
    note frame = validateShield_frame [OF ne, of env net e s]
    from validateShieldTry_fst_cong [OF frame] Cons.prems(3)
    have "fst (validateShieldTry env net x e (validateShield env net y e s)) = Inl err"
      by simp
    with Cons.IH [of "validateShield env net y e s"] Cons.prems(1) x frame
    show ?thesis by simp
  qed
qed

lemma pendingShieldsQuery_distinct:
  assumes "uniqueIndex rows"
  shows "distinct (map rowKey (pendingShieldsQuery e l rows))"
proof -
  let ?f = "filter (\<lambda>r. status r = Pending \<and> timestamp r \<le> e) rows"
  from assms have d: "distinct rows" and i: "inj_on rowKey (set rows)"
    by (simp_all add: uniqueIndex_def distinct_map)
  have "distinct (take l (sort_key timestamp ?f))"
    using d by simp
  moreover have "set (take l (sort_key timestamp ?f)) \<subseteq> set rows"
    using set_take_subset [of l "sort_key timestamp ?f"] by auto
  ultimately show ?thesis
    using i by (auto simp: pendingShieldsQuery_def distinct_map intro: inj_on_subset)
qed

lemma queueNewShields_isolated:
  assumes status: "datastoreFault env (GetStatus net) = None"
    and wallet: "walletResponse env net
                   (case statusDB s net of Some b \<Rightarrow> b | None \<Rightarrow> deploymentBlock env net)
                 = Inr newShields"
  shows "\<forall>sd\<in>set newShields.
           InsertPendingShield net sd \<in> set (calls (snd (queueNewShields env net s)))
           \<and> (datastoreFault env (InsertPendingShield net sd) = None \<longrightarrow>
                list_ex (hasKey (sd_txid sd) (sd_hash sd))
                  (shieldQueueDB (snd (queueNewShields env net s)) net))"
    and "newShields = []
         \<or> (datastoreFault env (SaveStatus net (sd_blockNumber (last newShields))) = None
            \<and> (\<forall>c. statusDB s net = Some c \<longrightarrow> c \<le> sd_blockNumber (last newShields)))
         \<Longrightarrow> fst (queueNewShields env net s) = Inr ()"
proof -
  let ?start = "case statusDB s net of Some b \<Rightarrow> b | None \<Rightarrow> deploymentBlock env net"
  let ?s2 = "s\<lparr>calls := calls s @ [GetStatus net, GetNewShieldsFromWallet net ?start]\<rparr>"
  let ?s3 = "fold (queueShieldSafe env net) newShields ?s2"
  note run = queueNewShields_unfold [OF status refl wallet]
  show "\<forall>sd\<in>set newShields.
           InsertPendingShield net sd \<in> set (calls (snd (queueNewShields env net s)))
           \<and> (datastoreFault env (InsertPendingShield net sd) = None \<longrightarrow>
                list_ex (hasKey (sd_txid sd) (sd_hash sd))
                  (shieldQueueDB (snd (queueNewShields env net s)) net))"
  proof
    fix sd
    assume sd: "sd \<in> set newShields"
    then have ne: "newShields \<noteq> []" by auto
    with run have s': "snd (queueNewShields env net s)
                        = snd (saveStatus env net (sd_blockNumber (last newShields)) ?s3)"
      by (simp add: Let_def)
    have "InsertPendingShield net sd \<in> set (calls (snd (queueNewShields env net s)))"
      using sd unfolding s' by (simp add: saveStatus_calls fold_queueShieldSafe_calls)
    moreover have "datastoreFault env (InsertPendingShield net sd) = None \<longrightarrow>
                list_ex (hasKey (sd_txid sd) (sd_hash sd))
                  (shieldQueueDB (snd (queueNewShields env net s)) net)"
      using sd unfolding s'
      by (simp add: saveStatus_shieldQueueDB fold_queueShieldSafe_adds_key)
    ultimately show "InsertPendingShield net sd \<in> set (calls (snd (queueNewShields env net s)))
           \<and> (datastoreFault env (InsertPendingShield net sd) = None \<longrightarrow>
                list_ex (hasKey (sd_txid sd) (sd_hash sd))
                  (shieldQueueDB (snd (queueNewShields env net s)) net))"
      by blast
  qed
  assume ok: "newShields = []
         \<or> (datastoreFault env (SaveStatus net (sd_blockNumber (last newShields))) = None
            \<and> (\<forall>c. statusDB s net = Some c \<longrightarrow> c \<le> sd_blockNumber (last newShields)))"
  show "fst (queueNewShields env net s) = Inr ()"
  proof (cases "newShields = []")
    case True
    with run show ?thesis by (simp add: Let_def)
  next
    case False
    with ok have f: "datastoreFault env (SaveStatus net (sd_blockNumber (last newShields))) = None"
      and m: "\<forall>c. statusDB ?s3 net = Some c \<longrightarrow> c \<le> sd_blockNumber (last newShields)"
      by (simp_all add: fold_queueShieldSafe_statusDB)
    from False run have "fst (queueNewShields env net s)
                        = fst (saveStatus env net (sd_blockNumber (last newShields)) ?s3)"
      by (simp add: Let_def)
    with saveStatus_fst [OF f m] show ?thesis by simp
  qed
qed

lemma getPendingShields_Inr:
  assumes "fst (getPendingShields env net e l s) = Inr rows"
  shows "getPendingShields env net e l s =
           (Inr rows, s\<lparr>calls := calls s @ [GetPendingShields net e l]\<rparr>)"
    and "rows = pendingShieldsQuery e l (shieldQueueDB s net)"
  using assms
  by (auto simp: getPendingShields_def logCall_def Let_def split: option.splits)

lemma validateNextQueuedShieldBatch_isolated:
  assumes rows: "fst (getPendingShields env net (getMaxTimestampForValidation env) 100 s)
                   = Inr rows"
  shows "\<forall>row\<in>set rows. GetTransactionReceipt net (txid row)
                            \<in> set (calls (validateNextQueuedShieldBatch env net s))"
    and "uniqueIndex (shieldQueueDB s net) \<Longrightarrow> row \<in> set rows \<Longrightarrow>
         fst (validateShieldTry env net row (getMaxTimestampForValidation env) s) = Inl err \<Longrightarrow>
           row \<in> set (shieldQueueDB (validateNextQueuedShieldBatch env net s) net)
           \<and> status row = Pending"
proof -
  let ?e = "getMaxTimestampForValidation env"
  let ?s1 = "s\<lparr>calls := calls s @ [GetPendingShields net ?e 100]\<rparr>"
  note got = getPendingShields_Inr [OF rows]
  have batch: "validateNextQueuedShieldBatch env net s
                 = fold (\<lambda>row. validateShield env net row ?e) rows ?s1"
    using got(1) by (auto simp: validateNextQueuedShieldBatch_def Let_def)
  show "\<forall>row\<in>set rows. GetTransactionReceipt net (txid row)
                            \<in> set (calls (validateNextQueuedShieldBatch env net s))"
  proof -
    obtain cs where "calls (fold (\<lambda>row. validateShield env net row ?e) rows ?s1)
                       = calls ?s1 @ cs"
      and "\<forall>row\<in>set rows. GetTransactionReceipt net (txid row) \<in> set cs"
      using validateShields_calls by blast
    then show ?thesis unfolding batch by simp
  qed
  assume uniq: "uniqueIndex (shieldQueueDB s net)" and row: "row \<in> set rows"
    and failed: "fst (validateShieldTry env net row ?e s) = Inl err"
  from row got(2) pendingShieldsQuery_set [of ?e 100 "shieldQueueDB s net"]
  have mem: "row \<in> set (shieldQueueDB s net)" and pending: "status row = Pending"
    by auto
  have d: "distinct (map rowKey rows)"
    using pendingShieldsQuery_distinct [OF uniq] got(2) by simp
  have "fst (validateShieldTry env net row ?e ?s1) = Inl err"
    using validateShieldTry_fst_cong [of row ?s1 net s env ?e] failed by simp
  from validateShields_failed_row [OF d row this]
  have "filter (hasKey (txid row) (commitmentHash row))
          (shieldQueueDB (validateNextQueuedShieldBatch env net s) net)
        = filter (hasKey (txid row) (commitmentHash row)) (shieldQueueDB s net)"
    unfolding batch by simp
  moreover have "row \<in> set (filter (hasKey (txid row) (commitmentHash row))
                               (shieldQueueDB s net))"
    using mem by (simp add: hasKey_def)
  ultimately have "row \<in> set (filter (hasKey (txid row) (commitmentHash row))
                               (shieldQueueDB (validateNextQueuedShieldBatch env net s) net))"
    by simp
  then have "row \<in> set (shieldQueueDB (validateNextQueuedShieldBatch env net s) net)"
    by simp
  with pending show "row \<in> set (shieldQueueDB (validateNextQueuedShieldBatch env net s) net)
           \<and> status row = Pending"
    by simp
qed

lemma runValidateQueuedShieldsPoller_length:
  "length (fst (runValidateQueuedShieldsPoller k envs config s)) = k"
  by (induction k arbitrary: envs s) (simp_all add: Let_def case_prod_beta)

text \<open>
  C8. Errors of single shields are isolated.
  \<^item> Queue-shields pass (once the status is read and the chain observer has answered):
    an insertion is attempted for every shield returned, and every shield whose own
    insertion is not refused is in the queue afterwards, whatever happens to the
    insertions of the others; the pass ends normally whenever the final write of the
    status is accepted (or there is nothing to write), whichever insertions failed, and
    the poller goes on to the next network.
  \<^item> Validation batch (once the pending rows are read): the receipt lookup, the first
    step of a validation, is made for every row of the batch; and a row whose validation
    fails is afterwards still in the queue with status \<open>Pending\<close>.
  \<^item> The validate-shields poller completes every iteration it is given: no error
    reaches its loop.
\<close>

theorem per_shield_errors_are_isolated:
  "(datastoreFault env (GetStatus net) = None
      \<and> walletResponse env net
           (case statusDB s net of Some b \<Rightarrow> b | None \<Rightarrow> deploymentBlock env net)
          = Inr newShields \<longrightarrow>
      (\<forall>sd\<in>set newShields.
          InsertPendingShield net sd \<in> set (calls (snd (queueNewShields env net s)))
          \<and> (datastoreFault env (InsertPendingShield net sd) = None \<longrightarrow>
               list_ex (hasKey (sd_txid sd) (sd_hash sd))
                 (shieldQueueDB (snd (queueNewShields env net s)) net)))
      \<and> (newShields = []
           \<or> (datastoreFault env (SaveStatus net (sd_blockNumber (last newShields))) = None
              \<and> (\<forall>c. statusDB s net = Some c \<longrightarrow> c \<le> sd_blockNumber (last newShields)))
          \<longrightarrow> fst (queueNewShields env net s) = Inr ()
              \<and> queueAllNetworks env (net # rest) s
                  = queueAllNetworks env rest (snd (queueNewShields env net s))))
   \<and> (fst (getPendingShields env net (getMaxTimestampForValidation env) 100 s) = Inr rows \<longrightarrow>
      (\<forall>row\<in>set rows.
          GetTransactionReceipt net (txid row)
            \<in> set (calls (validateNextQueuedShieldBatch env net s)))
      \<and> (uniqueIndex (shieldQueueDB s net) \<longrightarrow>
          (\<forall>row\<in>set rows.
              (\<exists>err. fst (validateShieldTry env net row (getMaxTimestampForValidation env) s)
                       = Inl err) \<longrightarrow>
              row \<in> set (shieldQueueDB (validateNextQueuedShieldBatch env net s) net)
              \<and> status row = Pending)))
   \<and> length (fst (runValidateQueuedShieldsPoller k envs config s)) = k"
proof (intro conjI impI)
  assume "datastoreFault env (GetStatus net) = None
      \<and> walletResponse env net
           (case statusDB s net of Some b \<Rightarrow> b | None \<Rightarrow> deploymentBlock env net)
          = Inr newShields"
  then have status: "datastoreFault env (GetStatus net) = None"
    and wallet: "walletResponse env net
           (case statusDB s net of Some b \<Rightarrow> b | None \<Rightarrow> deploymentBlock env net)
          = Inr newShields"
    by simp_all
  show "\<forall>sd\<in>set newShields.
          InsertPendingShield net sd \<in> set (calls (snd (queueNewShields env net s)))
          \<and> (datastoreFault env (InsertPendingShield net sd) = None \<longrightarrow>
               list_ex (hasKey (sd_txid sd) (sd_hash sd))
                 (shieldQueueDB (snd (queueNewShields env net s)) net))"
    by (rule queueNewShields_isolated(1) [OF status wallet])
  assume "newShields = []
           \<or> (datastoreFault env (SaveStatus net (sd_blockNumber (last newShields))) = None
              \<and> (\<forall>c. statusDB s net = Some c \<longrightarrow> c \<le> sd_blockNumber (last newShields)))"
  then have ended: "fst (queueNewShields env net s) = Inr ()"
    by (rule queueNewShields_isolated(2) [OF status wallet])
  then show "fst (queueNewShields env net s) = Inr ()" .
  from ended show "queueAllNetworks env (net # rest) s
                  = queueAllNetworks env rest (snd (queueNewShields env net s))"
    by (simp add: case_prod_beta)
next
  assume rows: "fst (getPendingShields env net (getMaxTimestampForValidation env) 100 s)
                  = Inr rows"
  show "\<forall>row\<in>set rows.
          GetTransactionReceipt net (txid row)
            \<in> set (calls (validateNextQueuedShieldBatch env net s))"
    by (rule validateNextQueuedShieldBatch_isolated(1) [OF rows])
  assume uniq: "uniqueIndex (shieldQueueDB s net)"
  show "\<forall>row\<in>set rows.
              (\<exists>err. fst (validateShieldTry env net row (getMaxTimestampForValidation env) s)
                       = Inl err) \<longrightarrow>
              row \<in> set (shieldQueueDB (validateNextQueuedShieldBatch env net s) net)
              \<and> status row = Pending"
    using validateNextQueuedShieldBatch_isolated(2) [OF rows uniq] by blast
next
  show "length (fst (runValidateQueuedShieldsPoller k envs config s)) = k"
    by (rule runValidateQueuedShieldsPoller_length)
qed

text \<open>
  Two shields, the data store refusing the insertion of the first: the second is queued
  and the pass ends normally. Two pending rows, the receipt lookup failing for the first:
  the first stays \<open>Pending\<close> and the second is validated and allowed.
\<close>

theorem per_shield_errors_are_isolated_witness:
  "map txid (shieldQueueDB (snd (queueNewShields
       ((exampleEnv [])\<lparr>walletResponse := (\<lambda>n b. Inr [exampleShield, exampleShield2]),
                         datastoreFault := (\<lambda>c. if c = InsertPendingShield ''Ethereum'' exampleShield
                                                  then Some (Error ''unavailable'') else None)\<rparr>)
       ''Ethereum'' emptyWorld)) ''Ethereum'') = [''0x9876'']
   \<and> fst (queueNewShields
       ((exampleEnv [])\<lparr>walletResponse := (\<lambda>n b. Inr [exampleShield, exampleShield2]),
                         datastoreFault := (\<lambda>c. if c = InsertPendingShield ''Ethereum'' exampleShield
                                                  then Some (Error ''unavailable'') else None)\<rparr>)
       ''Ethereum'' emptyWorld) = Inr ()
   \<and> map status (shieldQueueDB (validateNextQueuedShieldBatch
       ((exampleEnv [])\<lparr>txReceiptResponse := (\<lambda>n t. if t = ''0x1234'' then Inl (Error ''timeout'')
                                                      else Inr exampleReceipt)\<rparr>)
       ''Ethereum''
       (emptyWorld\<lparr>shieldQueueDB := (\<lambda>n. [])(''Ethereum'' := [exampleRow, exampleRow2])\<rparr>))
       ''Ethereum'') = [Pending, Allowed]
   \<and> exampleRow \<in> set (shieldQueueDB (validateNextQueuedShieldBatch
       ((exampleEnv [])\<lparr>txReceiptResponse := (\<lambda>n t. if t = ''0x1234'' then Inl (Error ''timeout'')
                                                      else Inr exampleReceipt)\<rparr>)
       ''Ethereum''
       (emptyWorld\<lparr>shieldQueueDB := (\<lambda>n. [])(''Ethereum'' := [exampleRow, exampleRow2])\<rparr>))
       ''Ethereum'')"
proof -
  define envQ where "envQ =
       (exampleEnv [])\<lparr>walletResponse := (\<lambda>n b. Inr [exampleShield, exampleShield2]),
                         datastoreFault := (\<lambda>c. if c = InsertPendingShield ''Ethereum'' exampleShield
                                                  then Some (Error ''unavailable'') else None)\<rparr>"
  define envV where "envV =
       (exampleEnv [])\<lparr>txReceiptResponse := (\<lambda>n t. if t = ''0x1234'' then Inl (Error ''timeout'')
                                                      else Inr exampleReceipt)\<rparr>"
  define worldV where "worldV =
       emptyWorld\<lparr>shieldQueueDB := (\<lambda>n. [])(''Ethereum'' := [exampleRow, exampleRow2])\<rparr>"
  note defs = envQ_def envV_def worldV_def example_defs exampleShield2_def exampleRow2_def
  have q: "datastoreFault envQ (GetStatus ''Ethereum'') = None
      \<and> walletResponse envQ ''Ethereum''
           (case statusDB emptyWorld ''Ethereum'' of Some b \<Rightarrow> b
            | None \<Rightarrow> deploymentBlock envQ ''Ethereum'')
          = Inr [exampleShield, exampleShield2]"
    by (simp add: defs)
  have save: "datastoreFault envQ (SaveStatus ''Ethereum'' (sd_blockNumber
                 (last [exampleShield, exampleShield2]))) = None
              \<and> (\<forall>c. statusDB emptyWorld ''Ethereum'' = Some c \<longrightarrow>
                     c \<le> sd_blockNumber (last [exampleShield, exampleShield2]))"
    by (simp add: defs)
  have v: "fst (getPendingShields envV ''Ethereum'' (getMaxTimestampForValidation envV) 100 worldV)
             = Inr [exampleRow, exampleRow2]"
    by (simp add: defs getPendingShields_def pendingShieldsQuery_def logCall_def
          getMaxTimestampForValidation_def hoursAgo_def)
  have u: "uniqueIndex (shieldQueueDB worldV ''Ethereum'')"
    by (simp add: defs uniqueIndex_def rowKey_def)
  have failed: "\<exists>err. fst (validateShieldTry envV ''Ethereum'' exampleRow
                             (getMaxTimestampForValidation envV) worldV) = Inl err"
    by (simp add: defs validateShieldTry_def rpc_defs)
  note Q = per_shield_errors_are_isolated
             [where env = envQ and net = "''Ethereum''" and s = emptyWorld
                and newShields = "[exampleShield, exampleShield2]",
              THEN conjunct1, rule_format, OF q]
  note V = per_shield_errors_are_isolated
             [where env = envV and net = "''Ethereum''" and s = worldV
                and rows = "[exampleRow, exampleRow2]",
              THEN conjunct2, THEN conjunct1, rule_format, OF v]
  have 1: "fst (queueNewShields envQ ''Ethereum'' emptyWorld) = Inr ()"
    using Q save by blast
  have 2: "exampleRow \<in> set (shieldQueueDB (validateNextQueuedShieldBatch envV ''Ethereum'' worldV)
                               ''Ethereum'')"
    using V u failed by simp
  have 3: "map txid (shieldQueueDB (snd (queueNewShields envQ ''Ethereum'' emptyWorld))
                       ''Ethereum'') = [''0x9876'']"
    by (simp add: defs provider_defs rpc_defs)
  have 4: "map status (shieldQueueDB (validateNextQueuedShieldBatch envV ''Ethereum'' worldV)
                         ''Ethereum'') = [Pending, Allowed]"
    by (simp add: defs provider_defs rpc_defs toLowerCase_example)
  from 1 2 3 4 show ?thesis
    unfolding envQ_def envV_def worldV_def by simp
qed

subsection \<open>The cadence of the validate-shields poller\<close>

lemma runValidateQueuedShieldsPoller_delays:
  "fst (runValidateQueuedShieldsPoller k envs config s)
     = replicate k (validateQueuedShieldsPollerDelay config)"
  by (induction k arbitrary: envs s) (simp_all add: Let_def case_prod_beta)

text \<open>
  C3. The validate-shields poller is meant to sleep \<open>validateShieldsOverrideDelayMsec\<close>
  when that option is set and 30 000 ms otherwise, whatever the queue-shields override
  is. The code reads the queue-shields override instead. With only the queue override
  set (to 5000), the delay computed by the validate poller is 5000, and it sleeps 5000 ms
  after each of two iterations; with only the validate override set (to 1000), the delay
  is 30 000.
\<close>

theorem validate_poller_delay_reads_queue_override:
  "validateQueuedShieldsPollerDelay
     \<lparr>name = ''list'', description = '''',
      queueShieldsOverrideDelayMsec = Some 5000,
      validateShieldsOverrideDelayMsec = None\<rparr> = 5000
   \<and> fst (runValidateQueuedShieldsPoller (Suc (Suc 0)) (\<lambda>i. exampleEnv [])
       \<lparr>name = ''list'', description = '''',
        queueShieldsOverrideDelayMsec = Some 5000,
        validateShieldsOverrideDelayMsec = None\<rparr> exampleWorld) = [5000, 5000]
   \<and> validateQueuedShieldsPollerDelay
     \<lparr>name = ''list'', description = '''',
      queueShieldsOverrideDelayMsec = None,
      validateShieldsOverrideDelayMsec = Some 1000\<rparr> = 30000"
  by (simp add: runValidateQueuedShieldsPoller_delays validateQueuedShieldsPollerDelay_def
        DEFAULT_VALIDATE_SHIELDS_DELAY_MSEC_def)

end
